theory Spec2Isabelle
  imports Main
begin

section \<open>Strings\<close>

text \<open>
  JavaScript strings are modelled as \<open>string\<close>, restricted to code units below 256.
  A role or content that is \<open>null\<close>, \<open>undefined\<close> or the empty string is the empty
  string of the model: the code only ever tests these values for truthiness
  (\<open>role || 'unknown'\<close>, \<open>content || ''\<close>, \<open>!incoming.role\<close>).
\<close>

definition isSpace :: "char \<Rightarrow> bool" where
  \<comment> \<open>the class \<open>\s\<close> (and the set stripped by \<open>trim\<close>) below code unit 256\<close>
  "isSpace c = (c = CHR 0x20 \<or> c = CHR 0x09 \<or> c = CHR 0x0A \<or> c = CHR 0x0B
               \<or> c = CHR 0x0C \<or> c = CHR 0x0D \<or> c = CHR 0xA0)"

fun collapseWs :: "string \<Rightarrow> string" where
  \<comment> \<open>\<open>s.replace(/\s+/g, ' ')\<close>: every maximal run of whitespace becomes one space\<close>
  "collapseWs [] = []"
| "collapseWs [c] = (if isSpace c then [CHR 0x20] else [c])"
| "collapseWs (c # d # cs) =
     (if isSpace c then (if isSpace d then collapseWs (d # cs) else CHR 0x20 # collapseWs (d # cs))
      else c # collapseWs (d # cs))"

definition trim :: "string \<Rightarrow> string" where
  "trim s = rev (dropWhile isSpace (rev (dropWhile isSpace s)))"

definition lowerChar :: "char \<Rightarrow> char" where
  "lowerChar c = (let n = (of_char c :: nat) in
     if (65 \<le> n \<and> n \<le> 90) \<or> (192 \<le> n \<and> n \<le> 222 \<and> n \<noteq> 215)
     then char_of (n + 32) else c)"

definition toLowerCase :: "string \<Rightarrow> string" where
  "toLowerCase s = map lowerChar s"

definition startsWith :: "string \<Rightarrow> string \<Rightarrow> bool" where
  \<comment> \<open>\<open>s.startsWith(p)\<close>\<close>
  "startsWith s p = (take (length p) s = p)"

fun string_of_nat :: "nat \<Rightarrow> string" where
  \<comment> \<open>the decimal rendering of a number inside a template literal\<close>
  "string_of_nat n =
     (if n < 10 then [char_of (48 + n)]
      else string_of_nat (n div 10) @ [char_of (48 + n mod 10)])"

declare string_of_nat.simps [simp del]

section \<open>Messages and the dedup signature\<close>

record message =
  msg_id :: string
  role :: string
  content :: string
  timestamp :: string
  session_id :: string
  captured_at :: nat

record candidate =
  c_role :: string
  c_content :: string

definition normalizeSig :: "string \<Rightarrow> string" where
  \<comment> \<open>\<open>(content || '').replace(/\s+/g, ' ').trim().toLowerCase()\<close>\<close>
  "normalizeSig s = toLowerCase (trim (collapseWs s))"

definition roleOrUnknown :: "string \<Rightarrow> string" where
  "roleOrUnknown r = (if r = [] then ''unknown'' else r)"

definition signature :: "string \<Rightarrow> string \<Rightarrow> string" where
  \<comment> \<open>the content script's signature: role, length, first 220 and (for longer
      contents only) last 220 characters of the normalized content\<close>
  "signature r s =
     (let c = normalizeSig s;
          len = length c;
          head = take 220 c;
          tail = (if len > 220 then drop (len - 220) c else [])
      in roleOrUnknown r @ ''|'' @ string_of_nat len @ ''|'' @ head @ ''|'' @ tail)"

definition signature_legacy :: "string \<Rightarrow> string \<Rightarrow> string" where
  \<comment> \<open>the variant in \<open>content.js\<close>: role and first 300 characters\<close>
  "signature_legacy r s = roleOrUnknown r @ ''|'' @ take 300 (normalizeSig s)"

definition signature_spec :: "nat \<Rightarrow> string \<Rightarrow> string \<Rightarrow> string" where
  \<comment> \<open>the signature as the specification words it: role, normalized length,
      normalized head (first \<open>N\<close> characters) and normalized tail (last \<open>N\<close>
      characters), with the separators of the code\<close>
  "signature_spec N r s =
     (let c = normalizeSig s;
          len = length c
      in roleOrUnknown r @ ''|'' @ string_of_nat len @ ''|'' @ take N c @ ''|''
           @ drop (len - N) c)"

section \<open>Streaming update of the last stored message\<close>

definition tryUpdateLastStreaming ::
  "nat \<Rightarrow> message list \<Rightarrow> candidate \<Rightarrow> bool \<times> message list" where
  \<comment> \<open>returns the flag and the list after the in-place update; \<open>now\<close> is \<open>Date.now()\<close>\<close>
  "tryUpdateLastStreaming now existing incoming =
     (if existing = [] then (False, existing)
      else let lst = last existing in
        if c_role incoming = [] then (False, existing)
        else if role lst \<noteq> c_role incoming then (False, existing)
        else let prev = trim (content lst); nxt = trim (c_content incoming) in
          if prev = [] \<or> nxt = [] then (False, existing)
          else if startsWith nxt prev \<or> startsWith prev nxt
            then (True, butlast existing @ [lst\<lparr>content := nxt, captured_at := now\<rparr>])
            else (False, existing))"

section \<open>Scanning the page into the store\<close>

fun inferRoles :: "string \<Rightarrow> nat \<Rightarrow> candidate list \<Rightarrow> candidate list" where
  \<comment> \<open>the role inference loop; \<open>lastKnown\<close> is empty for \<open>null\<close>, \<open>i\<close> is the index\<close>
  "inferRoles lastKnown i [] = []"
| "inferRoles lastKnown i (p # ps) =
     (if c_role p \<noteq> [] then p # inferRoles (c_role p) (Suc i) ps
      else if lastKnown \<noteq> [] then
        (let r = (if lastKnown = ''user'' then ''assistant'' else ''user'')
         in p\<lparr>c_role := r\<rparr> # inferRoles r (Suc i) ps)
      else
        (let r = (if i mod 2 = 0 then ''user'' else ''assistant'')
         in p\<lparr>c_role := r\<rparr> # inferRoles r (Suc i) ps))"

record scanEnv =
  nowIso :: string
  nowMs :: nat
  sessionId :: string

definition newMessage :: "scanEnv \<Rightarrow> nat \<Rightarrow> candidate \<Rightarrow> message" where
  \<comment> \<open>the object literal pushed for a new message, with id \<open>msg-n\<close>\<close>
  "newMessage env n p =
     \<lparr>msg_id = ''msg-'' @ string_of_nat n, role = c_role p, content = c_content p,
      timestamp = nowIso env, session_id = sessionId env, captured_at = nowMs env\<rparr>"

fun replaceLoop :: "scanEnv \<Rightarrow> message list \<Rightarrow> nat \<Rightarrow> candidate list \<Rightarrow> message list" where
  \<comment> \<open>the default mode: the stored list mirrors the parsed one index by index\<close>
  "replaceLoop env existing i [] = []"
| "replaceLoop env existing i (p # ps) =
     (if i < length existing \<and> role (existing ! i) = c_role p then
        (if content (existing ! i) \<noteq> c_content p
         then (existing ! i)\<lparr>content := c_content p, captured_at := nowMs env\<rparr>
         else existing ! i)
      else newMessage env (i + 1) p) # replaceLoop env existing (Suc i) ps"

fun appendLoop :: "scanEnv \<Rightarrow> candidate list \<Rightarrow> string set \<Rightarrow> message list \<Rightarrow> message list" where
  \<comment> \<open>the append mode: streaming update first, then dedup by signature\<close>
  "appendLoop env [] seen nxt = nxt"
| "appendLoop env (p # ps) seen nxt =
     (case tryUpdateLastStreaming (nowMs env) nxt p of
        (True, nxt') \<Rightarrow> appendLoop env ps seen nxt'
      | (False, _) \<Rightarrow>
          (let sig = signature (c_role p) (c_content p) in
           if sig \<in> seen then appendLoop env ps seen nxt
           else appendLoop env ps (insert sig seen)
                  (nxt @ [newMessage env (length nxt + 1) p])))"

definition scanAndSyncMessages ::
  "scanEnv \<Rightarrow> bool \<Rightarrow> candidate list \<Rightarrow> message list \<Rightarrow> message list" where
  \<comment> \<open>from the parsed page nodes and the stored list to the list saved to storage;
      with nothing parsed the store is left as it is\<close>
  "scanAndSyncMessages env appendMode parsed0 existing =
     (if parsed0 = [] then existing
      else let parsed = inferRoles [] 0 parsed0 in
        if \<not> appendMode then replaceLoop env existing 0 parsed
        else appendLoop env parsed
               (set (map (\<lambda>m. signature (role m) (content m)) existing)) existing)"

section \<open>Merging the API cache with the page capture\<close>

fun pushAll :: "message list \<Rightarrow> string set \<Rightarrow> message list \<Rightarrow> message list" where
  \<comment> \<open>the \<open>push\<close> closure applied to each message in turn\<close>
  "pushAll [] seen merged = merged"
| "pushAll (m # ms) seen merged =
     (if role m = [] \<or> content m = [] then pushAll ms seen merged
      else let sig = signature (role m) (content m) in
        if sig \<in> seen then pushAll ms seen merged
        else pushAll ms (insert sig seen) (merged @ [m]))"

fun renumber :: "string \<Rightarrow> nat \<Rightarrow> message list \<Rightarrow> message list" where
  "renumber sid idx [] = []"
| "renumber sid idx (m # ms) =
     m\<lparr>msg_id := ''msg-'' @ string_of_nat (idx + 1), session_id := sid\<rparr> # renumber sid (Suc idx) ms"

definition mergeApiDom :: "string \<Rightarrow> message list \<Rightarrow> message list \<Rightarrow> message list" where
  \<comment> \<open>the share-page merge: API messages first, then page messages\<close>
  "mergeApiDom sid apiMsgs domMsgs = renumber sid 0 (pushAll (apiMsgs @ domMsgs) {} [])"

definition pickMessages :: "message list \<Rightarrow> message list \<Rightarrow> message list" where
  \<comment> \<open>\<open>apiMsgs.length >= domMsgs.length ? apiMsgs : domMsgs\<close>\<close>
  "pickMessages apiMsgs domMsgs = (if length apiMsgs \<ge> length domMsgs then apiMsgs else domMsgs)"

section \<open>Job control\<close>

datatype effect =
    ClearProgress
  | EmitProgress string string
  | StartHeartbeat
  | RunJob

record tabState =
  snapshotJobRunning :: bool
  captureIdActive :: string
  chatgptChunkSeen :: "nat set"
  jobTabId :: "nat option"
  jobStrategy :: string
  lastProgressWriteAt :: nat
  progressRecord :: "(string \<times> string) list option"
  effects :: "effect list"

text \<open>
  \<open>progressRecord\<close> is the progress slot of the extension storage and \<open>effects\<close> the
  asynchronous work the tab has issued so far: clearing and writing the progress record,
  the heartbeat timer and the job itself all complete after the handler has returned.
\<close>

datatype response =
    RespStarted string string
  | RespError string string string

text \<open>
  \<open>RespStarted captureId provider\<close> is the answer \<open>{ok: true, started: true, captureId,
  provider}\<close>; \<open>RespError type code message\<close> is \<open>{ok: false, error: {type, code,
  message}}\<close>.
\<close>

record startRequest =
  req_captureId :: string
  req_senderTab :: "nat option"

definition startSnapshotJob ::
  "nat \<Rightarrow> string \<Rightarrow> startRequest \<Rightarrow> tabState \<Rightarrow> response \<times> tabState" where
  \<comment> \<open>the \<open>startSnapshotJob\<close> branch of the message listener, up to its \<open>return\<close>;
      the job's own first statements (flag, heartbeat, first progress event) run
      before \<open>runSnapshotJob\<close> reaches its first \<open>await\<close>\<close>
  "startSnapshotJob now provider req st =
     (let cap = (if trim (req_captureId req) \<noteq> [] then trim (req_captureId req)
                 else ''cap-'' @ string_of_nat now)
      in if snapshotJobRunning st then
           (RespError ''error'' ''JOB_ALREADY_RUNNING''
              ''A snapshot job is already running on this tab.'', st)
         else
           (RespStarted cap provider,
            st\<lparr>captureIdActive := cap,
               chatgptChunkSeen := {},
               jobTabId := req_senderTab req,
               jobStrategy := [],
               lastProgressWriteAt := now,
               snapshotJobRunning := True,
               effects := effects st @
                 [ClearProgress, EmitProgress cap ''starting'', RunJob, StartHeartbeat,
                  EmitProgress cap ''starting'']\<rparr>))"

fun startAll ::
  "string \<Rightarrow> (nat \<times> startRequest) list \<Rightarrow> tabState \<Rightarrow> response list \<times> tabState" where
  \<comment> \<open>start requests, each with the clock at its arrival, handled one after the other
      before the job has come to its end\<close>
  "startAll provider [] st = ([], st)"
| "startAll provider ((now, r) # rs) st =
     (case startSnapshotJob now provider r st of
        (resp, st') \<Rightarrow> (case startAll provider rs st' of
           (resps, st'') \<Rightarrow> (resp # resps, st'')))"

definition jobAlreadyRunning :: response where
  "jobAlreadyRunning =
     RespError ''error'' ''JOB_ALREADY_RUNNING'' ''A snapshot job is already running on this tab.''"

section \<open>Snapshot generation\<close>

record topic =
  label :: string
  weight :: nat
  message_refs :: "string list"
  summary :: string

record decision =
  dec_id :: string
  intent :: string
  chosen_option :: string
  confidence_llm :: nat

datatype jv =
    JStr string
  | JBool bool
  | JTopics "topic list"
  | JDecisions "decision list"
  | JInsights "string list"
  | JMessages "message list"
  | JOpaque string

text \<open>
  A snapshot is a JavaScript object: the list of its keys, in insertion order, with their
  values. \<open>JOpaque\<close> stands for a value computed by a part of the generator that is not
  modelled (branding, timelines, spines, metadata, hashes); its argument names the field.
\<close>

type_synonym snapshot = "(string \<times> jv) list"

fun setKey :: "string \<Rightarrow> jv \<Rightarrow> snapshot \<Rightarrow> snapshot" where
  \<comment> \<open>\<open>obj[k] = v\<close>: overwrite in place, or add the key at the end\<close>
  "setKey k v [] = [(k, v)]"
| "setKey k v ((k', v') # kvs) = (if k = k' then (k, v) # kvs else (k', v') # setKey k v kvs)"

fun spread :: "snapshot \<Rightarrow> snapshot \<Rightarrow> snapshot" where
  \<comment> \<open>\<open>{...base, ...extra}\<close>\<close>
  "spread base [] = base"
| "spread base ((k, v) # kvs) = spread (setKey k v base) kvs"

definition hasKey :: "string \<Rightarrow> snapshot \<Rightarrow> bool" where
  "hasKey k snap = (k \<in> set (map fst snap))"

definition getKey :: "string \<Rightarrow> snapshot \<Rightarrow> jv option" where
  "getKey k snap = map_of snap k"

record genBudget =
  deadline :: nat
  maxTopics :: nat
  maxDecisions :: nat
  maxInsights :: nat

record generator =
  g_messages :: "message list"
  g_budget :: genBudget
  g_includeTranscript :: bool
  g_outputMode :: string

definition newGenerator :: "nat \<Rightarrow> message list \<Rightarrow> bool option \<Rightarrow> string \<Rightarrow> generator" where
  \<comment> \<open>the constructor, called with an empty budget; \<open>None\<close> is an \<open>includeTranscript\<close>
      left undefined\<close>
  "newGenerator now msgs inc mode =
     \<lparr>g_messages = msgs,
      g_budget = \<lparr>deadline = now + 2000, maxTopics = 7, maxDecisions = 5, maxInsights = 10\<rparr>,
      g_includeTranscript = (case inc of None \<Rightarrow> True | Some b \<Rightarrow> b),
      g_outputMode = (if mode = ''ultra'' \<or> mode = ''ultra_plus'' then mode else ''digest'')\<rparr>"

record genEnv =
  exTopics :: "message list \<Rightarrow> topic list"
  exDecisions :: "message list \<Rightarrow> decision list"
  exInsights :: "message list \<Rightarrow> string list"
  envIso :: string
  envMs :: nat
  check1 :: nat
  check2 :: nat
  check3 :: nat

text \<open>
  The environment of one \<open>generate()\<close> call: the three global extractors as the
  generator's wrappers see them (a missing or throwing extractor is the constant empty
  list), the ISO time and the millisecond clock read for the session id, and the clock
  values read by the first, second and third deadline check.
\<close>

fun hex_of_nat :: "nat \<Rightarrow> string" where
  "hex_of_nat n =
     (if n < 16 then [''0123456789abcdef'' ! n]
      else hex_of_nat (n div 16) @ [''0123456789abcdef'' ! (n mod 16)])"

declare hex_of_nat.simps [simp del]

definition isLineTerm :: "char \<Rightarrow> bool" where
  "isLineTerm c = (c = CHR 0x0A \<or> c = CHR 0x0D)"

fun lazyUntilDash :: "string \<Rightarrow> string \<Rightarrow> string option" where
  \<comment> \<open>extends the group \<open>(.+?)\<close> until a \<open>-\<close> follows it\<close>
  "lazyUntilDash acc [] = None"
| "lazyUntilDash acc (d # ds) =
     (if d = CHR ''-'' then Some acc
      else if isLineTerm d then None
      else lazyUntilDash (acc @ [d]) ds)"

definition convGroup :: "string \<Rightarrow> string option" where
  \<comment> \<open>group 1 of \<open>/^conv-(.+?)-/\<close>\<close>
  "convGroup s =
     (if startsWith s ''conv-'' then
        (case drop 5 s of [] \<Rightarrow> None
         | c # cs \<Rightarrow> if isLineTerm c then None else lazyUntilDash [c] cs)
      else None)"

definition pickSessionId :: "string \<Rightarrow> nat \<Rightarrow> message list \<Rightarrow> string" where
  "pickSessionId nowStr ms msgs =
     (case find (\<lambda>m. session_id m \<noteq> [] \<and> \<not> startsWith (session_id m) ''conv-unknown-'') msgs of
        Some m \<Rightarrow> session_id m
      | None \<Rightarrow>
         (case (case find (\<lambda>m. session_id m \<noteq> []) msgs of
                  None \<Rightarrow> None | Some m \<Rightarrow> convGroup (session_id m)) of
            Some g \<Rightarrow> (if g \<noteq> ''unknown'' then ''conv-'' @ g @ ''-'' @ nowStr
                        else ''conv-hash-'' @ hex_of_nat ms @ ''-'' @ nowStr)
          | None \<Rightarrow> ''conv-hash-'' @ hex_of_nat ms @ ''-'' @ nowStr))"

definition generatePartialSnapshot ::
  "genEnv \<Rightarrow> generator \<Rightarrow> string \<Rightarrow> snapshot \<Rightarrow> snapshot" where
  "generatePartialSnapshot env g reason partialData =
     (let sid = pickSessionId (envIso env) (envMs env) (g_messages g);
          base =
            [(''version'', JStr ''0.1.0''),
             (''session_id'', JStr sid),
             (''timestamp'', JStr (envIso env)),
             (''partial'', JBool True),
             (''partial_reason'', JStr reason),
             (''topics'', JTopics []),
             (''decisions'', JDecisions []),
             (''insights'', JInsights []),
             (''context_summary'', JStr []),
             (''messages'', JMessages (map (\<lambda>m. m\<lparr>session_id := sid\<rparr>) (g_messages g))),
             (''metadata'', JOpaque ''metadata''),
             (''checksum'', JStr [])]
      in spread base partialData)"

fun containsStr :: "string \<Rightarrow> string \<Rightarrow> bool" where
  \<comment> \<open>\<open>containsStr p s\<close>: the literal \<open>p\<close> occurs in \<open>s\<close>\<close>
  "containsStr p [] = (p = [])"
| "containsStr p (c # cs) = (startsWith (c # cs) p \<or> containsStr p cs)"

definition testCI :: "string \<Rightarrow> string \<Rightarrow> bool" where
  \<comment> \<open>\<open>/p/i.test(s)\<close> for a pattern \<open>p\<close> of literal characters, given in lower case\<close>
  "testCI p s = containsStr p (toLowerCase s)"

definition systemPatterns :: "string list" where
  "systemPatterns =
     [''pour ex'' @ [CHR 0xE9] @ ''cuter du code, activez l'' @ [CHR 0x27] @ ''ex'' @ [CHR 0xE9] @ ''cution'',
      ''pour ex'' @ [CHR 0xE9] @ ''cuter du code, activez'',
      ''activez l'' @ [CHR 0x27] @ ''ex'' @ [CHR 0xE9] @ ''cution de code'',
      ''param'' @ [CHR 0xE8] @ ''tres > capacit'' @ [CHR 0xE9] @ ''s'']"

fun findIndex :: "('a \<Rightarrow> bool) \<Rightarrow> 'a list \<Rightarrow> nat option" where
  "findIndex P [] = None"
| "findIndex P (x # xs) = (if P x then Some 0 else map_option Suc (findIndex P xs))"

fun dedupLoop ::
  "string set \<Rightarrow> message list \<Rightarrow> (string \<times> string) list \<Rightarrow> message list \<Rightarrow> message list" where
  \<comment> \<open>the loop of \<open>_deduplicateMessages\<close>; \<open>seen\<close> maps a content key to a message id\<close>
  "dedupLoop refs [] seen unique = unique"
| "dedupLoop refs (msg # ms) seen unique =
     (let c = trim (content msg) in
      if c = [] then dedupLoop refs ms seen unique
      else if list_ex (\<lambda>p. testCI p c) systemPatterns then dedupLoop refs ms seen unique
      else let contentKey = take 200 (toLowerCase c) in
        (case map_of seen contentKey of
           Some prevId \<Rightarrow>
             (if msg_id msg \<in> refs then
                (case findIndex (\<lambda>m. msg_id m = prevId) unique of
                   Some i \<Rightarrow> dedupLoop refs ms ((contentKey, msg_id msg) # seen)
                               (take i unique @ drop (Suc i) unique @ [msg])
                 | None \<Rightarrow> dedupLoop refs ms seen unique)
              else dedupLoop refs ms seen unique)
         | None \<Rightarrow> dedupLoop refs ms ((contentKey, msg_id msg) # seen) (unique @ [msg])))"

definition deduplicateMessages :: "message list \<Rightarrow> topic list \<Rightarrow> message list" where
  "deduplicateMessages msgs topics =
     dedupLoop (\<Union>t \<in> set topics. set (message_refs t)) msgs [] []"

fun joinWith :: "string \<Rightarrow> string list \<Rightarrow> string" where
  "joinWith sep [] = []"
| "joinWith sep [x] = x"
| "joinWith sep (x # y # ys) = x @ sep @ joinWith sep (y # ys)"

definition msgSep :: string where
  "msgSep = [CHR 0x0A, CHR 0x0A] @ ''<|RL4_MSG|>'' @ [CHR 0x0A, CHR 0x0A]"

definition encodeMessagesCompact :: "message list \<Rightarrow> string" where
  "encodeMessagesCompact msgs =
     joinWith msgSep
       (map (\<lambda>m. (if role m = ''user'' then ''USER'' else ''ASSISTANT'') @ '':'' @ [CHR 0x0A]
                    @ trim (content m))
          (filter (\<lambda>m. trim (content m) \<noteq> []) msgs))"

definition buildDigest ::
  "string \<Rightarrow> string \<Rightarrow> topic list \<Rightarrow> decision list \<Rightarrow> string list \<Rightarrow> snapshot" where
  \<comment> \<open>the object literal \<open>digest\<close>\<close>
  "buildDigest sid nowStr topics decisions insights =
     [(''_branding'', JOpaque ''_branding''),
      (''protocol'', JStr ''RCEP_v1''),
      (''version'', JStr ''0.3.0-digest''),
      (''producer'', JOpaque ''producer''),
      (''session_id'', JStr sid),
      (''timestamp'', JStr nowStr),
      (''context_state'', JOpaque ''context_state''),
      (''topics'', JTopics topics),
      (''decisions'', JDecisions decisions),
      (''insights'', JInsights insights),
      (''context_summary'', JOpaque ''context_summary''),
      (''timeline_summary'', JOpaque ''timeline_summary''),
      (''timeline_macro'', JOpaque ''timeline_macro''),
      (''cognitive_spine'', JOpaque ''cognitive_spine''),
      (''portable_memory'', JOpaque ''portable_memory''),
      (''conversation_fingerprint'', JOpaque ''conversation_fingerprint''),
      (''metadata'', JOpaque ''metadata''),
      (''checksum'', JStr [])]"

definition ultraSemanticHints :: snapshot where
  \<comment> \<open>the keys returned by \<open>_ultraSemanticHints\<close>\<close>
  "ultraSemanticHints =
     [(''context_summary_ultra'', JOpaque ''context_summary_ultra''),
      (''validation_checklist'', JOpaque ''validation_checklist''),
      (''unknowns'', JOpaque ''unknowns''),
      (''semantic_validation'', JOpaque ''semantic_validation''),
      (''assumptions_candidates'', JOpaque ''assumptions_candidates''),
      (''semantic_spine'', JOpaque ''semantic_spine'')]"

definition buildUltraSnapshot :: "snapshot \<Rightarrow> bool \<Rightarrow> snapshot" where
  \<comment> \<open>the object literal \<open>ultra\<close>; topics keep those of weight above 700, without
      their message references\<close>
  "buildUltraSnapshot digest semanticHints =
     [(''_branding'', JOpaque ''_branding''),
      (''protocol'', JStr (if semanticHints then ''RCEP_v2_UltraPlus'' else ''RCEP_v2_Ultra'')),
      (''producer'', JOpaque ''producer''),
      (''session_id'', (case getKey ''session_id'' digest of Some v \<Rightarrow> v | None \<Rightarrow> JOpaque ''session_id'')),
      (''timestamp'', (case getKey ''timestamp'' digest of Some v \<Rightarrow> v | None \<Rightarrow> JOpaque ''timestamp'')),
      (''context_state'', JOpaque ''context_state''),
      (''topics'',
         (case getKey ''topics'' digest of
            Some (JTopics ts) \<Rightarrow>
              JTopics (map (\<lambda>t. t\<lparr>message_refs := []\<rparr>) (filter (\<lambda>t. weight t > 700) ts))
          | _ \<Rightarrow> JTopics [])),
      (''decisions'', JOpaque ''prunedDecisions''),
      (''timeline_macro'', JOpaque ''timeline_macro''),
      (''portable_memory'', JOpaque ''portable_memory'')]
     @ (if semanticHints then ultraSemanticHints else [])
     @ [(''conversation_fingerprint'', JOpaque ''conversation_fingerprint''),
        (''metadata'', JOpaque ''metadata''),
        (''checksum'', JStr [])]"

definition generate :: "genEnv \<Rightarrow> generator \<Rightarrow> snapshot" where
  "generate env g =
     (let msgs = g_messages g;
          b = g_budget g;
          sid = pickSessionId (envIso env) (envMs env) msgs
      in if check1 env > deadline b then generatePartialSnapshot env g ''deadline_exceeded'' []
      else let topics = take (maxTopics b) (exTopics env msgs)
      in if check2 env > deadline b
         then generatePartialSnapshot env g ''deadline_exceeded'' [(''topics'', JTopics topics)]
      else let decisions = take (maxDecisions b) (exDecisions env msgs)
      in if check3 env > deadline b
         then generatePartialSnapshot env g ''deadline_exceeded''
                [(''topics'', JTopics topics), (''decisions'', JDecisions decisions)]
      else let insights = take (maxInsights b) (exInsights env msgs);
               normalizedMessages =
                 map (\<lambda>m. m\<lparr>session_id := sid\<rparr>) (deduplicateMessages msgs topics);
               transcriptCompact = encodeMessagesCompact normalizedMessages;
               digest0 = buildDigest sid (envIso env) topics decisions insights;
               digest =
                 (if g_includeTranscript g \<and> g_outputMode g \<noteq> ''ultra''
                     \<and> g_outputMode g \<noteq> ''ultra_plus''
                  then setKey ''transcript_format'' (JOpaque ''transcript_format'')
                         (setKey ''transcript_compact'' (JStr transcriptCompact) digest0)
                  else digest0);
               digest' = setKey ''metadata'' (JOpaque ''metadata'') digest
      in if g_outputMode g = ''ultra'' \<or> g_outputMode g = ''ultra_plus''
         then setKey ''checksum'' (JOpaque ''checksum'')
                (buildUltraSnapshot digest' (g_outputMode g = ''ultra_plus''))
         else setKey ''checksum'' (JOpaque ''checksum'') digest')"

record jobOptions =
  jo_outputMode :: "string option"
  jo_includeTranscript :: bool
  jo_wantsIntegritySeal :: bool

definition jobOutputMode :: "jobOptions \<Rightarrow> string" where
  "jobOutputMode opts = (case jo_outputMode opts of Some s \<Rightarrow> s | None \<Rightarrow> ''digest'')"

definition approxChars :: "message list \<Rightarrow> nat" where
  "approxChars msgs = foldl (\<lambda>acc m. acc + length (content m)) 0 msgs"

definition jobIncludeTranscript :: "jobOptions \<Rightarrow> message list \<Rightarrow> bool" where
  \<comment> \<open>the value of \<open>includeTranscript\<close> handed to the generator\<close>
  "jobIncludeTranscript opts msgs =
     (let inc0 = jo_includeTranscript opts;
          inc1 = (if jobOutputMode opts = ''ultra'' \<or> jobOutputMode opts = ''ultra_plus''
                  then False else inc0)
      in if length msgs > 1500 \<or> approxChars msgs > 1200000 then False else inc1)"

definition runSnapshotJob ::
  "genEnv \<Rightarrow> nat \<Rightarrow> jobOptions \<Rightarrow> message list \<Rightarrow> message list \<Rightarrow> snapshot" where
  \<comment> \<open>from the API cache and the stored page capture to the snapshot saved by the job;
      \<open>now\<close> is the clock read by the generator's constructor\<close>
  "runSnapshotJob env now opts apiMsgs domMsgs =
     (let messages = pickMessages apiMsgs domMsgs;
          includeTranscript = jobIncludeTranscript opts messages;
          g = newGenerator now messages (Some includeTranscript) (jobOutputMode opts);
          snap = generate env g;
          snap1 = setKey ''checksum'' (JOpaque ''checksum'')
                    (setKey ''metadata'' (JOpaque ''metadata'') snap)
      in if jo_wantsIntegritySeal opts
         then setKey ''signature'' (JOpaque ''signature'') snap1 else snap1)"

section \<open>Insight extraction\<close>

text \<open>
  The regular expressions of \<open>lib/extraction.js\<close> are written out as functions on
  strings. A pattern that can match in several ways is a function from the text at a
  position to the list of texts that may remain after a match there.
\<close>

type_synonym matcher = "string \<Rightarrow> string list"

definition lit :: "string \<Rightarrow> matcher" where
  \<comment> \<open>literal characters, given in lower case, under the \<open>i\<close> flag\<close>
  "lit p s = (if toLowerCase (take (length p) s) = p then [drop (length p) s] else [])"

definition ws0 :: matcher where
  \<comment> \<open>\<open>\s*\<close>\<close>
  "ws0 s = map (\<lambda>i. drop i s) (rev [0 ..< Suc (length (takeWhile isSpace s))])"

definition ws1 :: matcher where
  \<comment> \<open>\<open>\s+\<close>\<close>
  "ws1 s = map (\<lambda>i. drop i s) (rev [1 ..< Suc (length (takeWhile isSpace s))])"

definition sq :: "matcher \<Rightarrow> matcher \<Rightarrow> matcher" where
  "sq p q s = concat (map q (p s))"

definition testAnywhere :: "matcher \<Rightarrow> string \<Rightarrow> bool" where
  \<comment> \<open>\<open>re.test(s)\<close> for an unanchored pattern\<close>
  "testAnywhere p s = list_ex (\<lambda>i. p (drop i s) \<noteq> []) [0 ..< Suc (length s)]"

definition insightPatterns :: "matcher list" where
  "insightPatterns =
     [lit ''critical:'',
      lit ''important:'',
      sq (lit ''key'') (sq ws1 (lit ''insight:'')),
      lit ''remember:'',
      lit ''note:'',
      sq (lit ''critique'') (sq ws0 (lit '':'')),
      sq (lit ''important'') (sq ws0 (lit '':'')),
      sq (lit ''point'') (sq ws1 (sq (lit (''cl'' @ [CHR 0xE9])) (sq ws0 (lit '':'')))),
      sq (lit [CHR 0xE0]) (sq ws1 (sq (lit ''retenir'') (sq ws0 (lit '':'')))),
      sq (lit ''note'') (sq ws0 (lit '':''))]"

definition isWordChar :: "char \<Rightarrow> bool" where
  \<comment> \<open>\<open>\w\<close>\<close>
  "isWordChar c = (let n = (of_char c :: nat) in
     (48 \<le> n \<and> n \<le> 57) \<or> (65 \<le> n \<and> n \<le> 90) \<or> n = 95 \<or> (97 \<le> n \<and> n \<le> 122))"

definition boundaryAfter :: "bool \<Rightarrow> string \<Rightarrow> bool" where
  \<comment> \<open>\<open>\b\<close> after a matched character that is (or is not) a word character\<close>
  "boundaryAfter lastIsWord rest =
     (lastIsWord \<noteq> (case rest of [] \<Rightarrow> False | c # _ \<Rightarrow> isWordChar c))"

definition goalStatement :: "string \<Rightarrow> bool" where
  \<comment> \<open>\<open>/^\s*(je\s+veux|objectif\s*:|goal\s*:|il\s+faut|we\s+need\s+to)\b/i\<close>\<close>
  "goalStatement s =
     list_ex (\<lambda>t.
        list_ex (boundaryAfter True) (sq (lit ''je'') (sq ws1 (lit ''veux'')) t)
      \<or> list_ex (boundaryAfter False) (sq (lit ''objectif'') (sq ws0 (lit '':'')) t)
      \<or> list_ex (boundaryAfter False) (sq (lit ''goal'') (sq ws0 (lit '':'')) t)
      \<or> list_ex (boundaryAfter True) (sq (lit ''il'') (sq ws1 (lit ''faut'')) t)
      \<or> list_ex (boundaryAfter True)
            (sq (lit ''we'') (sq ws1 (sq (lit ''need'') (sq ws1 (lit ''to'')))) t))
       (ws0 s)"

fun findStr :: "string \<Rightarrow> string \<Rightarrow> nat option" where
  \<comment> \<open>index of the first occurrence of a literal\<close>
  "findStr p [] = (if p = [] then Some 0 else None)"
| "findStr p (c # cs) =
     (if startsWith (c # cs) p then Some 0 else map_option Suc (findStr p cs))"

fun removeFences :: "string \<Rightarrow> string" where
  \<comment> \<open>\<open>.replace(/```[\s\S]*?```/g, ' ')\<close>\<close>
  "removeFences [] = []"
| "removeFences (c # cs) =
     (if startsWith (c # cs) ''```'' then
        (case findStr ''```'' (drop 2 cs) of
           Some j \<Rightarrow> CHR 0x20 # removeFences (drop (2 + j + 3) cs)
         | None \<Rightarrow> c # removeFences cs)
      else c # removeFences cs)"

fun removeInline :: "string \<Rightarrow> string" where
  \<comment> \<open>\<open>.replace(/`[^`]*`/g, ' ')\<close>\<close>
  "removeInline [] = []"
| "removeInline (c # cs) =
     (if c = CHR ''`'' then
        (case findStr ''`'' cs of
           Some j \<Rightarrow> CHR 0x20 # removeInline (drop (Suc j) cs)
         | None \<Rightarrow> c # removeInline cs)
      else c # removeInline cs)"

definition stripCode :: "string \<Rightarrow> string" where
  "stripCode t = trim (collapseWs (removeInline (removeFences t)))"

definition dropHeading :: "string \<Rightarrow> string" where
  \<comment> \<open>\<open>.replace(/^\s{0,3}#{1,6}\s+/gm, ' ')\<close> on a text without line breaks\<close>
  "dropHeading t =
     (let lead = takeWhile isSpace t;
          r1 = dropWhile isSpace t;
          hs = takeWhile (\<lambda>c. c = CHR ''#'') r1;
          r2 = dropWhile (\<lambda>c. c = CHR ''#'') r1
      in if length lead \<le> 3 \<and> 1 \<le> length hs \<and> length hs \<le> 6
            \<and> r2 \<noteq> [] \<and> isSpace (hd r2)
         then CHR 0x20 # dropWhile isSpace r2 else t)"

definition dropListMarker :: "string \<Rightarrow> string" where
  \<comment> \<open>\<open>.replace(/^\s*[-*]\s+/gm, ' ')\<close> on a text without line breaks\<close>
  "dropListMarker t =
     (case dropWhile isSpace t of
        [] \<Rightarrow> t
      | c # r \<Rightarrow> if (c = CHR ''-'' \<or> c = CHR ''*'') \<and> r \<noteq> [] \<and> isSpace (hd r)
                 then CHR 0x20 # dropWhile isSpace r else t)"

fun removeUrls :: "bool \<Rightarrow> bool \<Rightarrow> string \<Rightarrow> string" where
  \<comment> \<open>\<open>.replace(/\bhttps?:\/\/\S+/gi, ' ')\<close>; the first flag is set inside a match
      (the rest of the URL is being consumed), the second tells whether the character
      before the position is a word character\<close>
  "removeUrls inUrl prevWord [] = []"
| "removeUrls inUrl prevWord (c # cs) =
     (if inUrl then
        (if isSpace c then c # removeUrls False False cs else removeUrls True prevWord cs)
      else
        (let s = c # cs;
             n = (if toLowerCase (take 8 s) = ''https://'' then 8
                  else if toLowerCase (take 7 s) = ''http://'' then 7 else 0)
         in if \<not> prevWord \<and> n > 0 \<and> drop n s \<noteq> [] \<and> \<not> isSpace (hd (drop n s))
            then CHR 0x20 # removeUrls True False cs
            else c # removeUrls False (isWordChar c) cs))"

fun squashRuns :: "(char \<Rightarrow> bool) \<Rightarrow> nat \<Rightarrow> bool \<Rightarrow> string \<Rightarrow> string" where
  \<comment> \<open>\<open>.replace(/[...]{k,}/g, ' ')\<close>: a run of at least \<open>k\<close> characters of the class
      becomes one space; the flag is set while such a run is being consumed\<close>
  "squashRuns P k inRun [] = []"
| "squashRuns P k inRun (c # cs) =
     (if inRun \<and> P c then squashRuns P k True cs
      else if P c \<and> length (takeWhile P (c # cs)) \<ge> k then CHR 0x20 # squashRuns P k True cs
      else c # squashRuns P k False cs)"

definition isLetter :: "char \<Rightarrow> bool" where
  \<comment> \<open>\<open>\p{L}\<close> below code unit 256\<close>
  "isLetter c = (let n = (of_char c :: nat) in
     (65 \<le> n \<and> n \<le> 90) \<or> (97 \<le> n \<and> n \<le> 122) \<or> n = 170 \<or> n = 181 \<or> n = 186
     \<or> (192 \<le> n \<and> n \<le> 214) \<or> (216 \<le> n \<and> n \<le> 246) \<or> (248 \<le> n \<and> n \<le> 255))"

definition isBracket :: "char \<Rightarrow> bool" where
  \<comment> \<open>the class \<open>[{}()[\];]\<close>\<close>
  "isBracket c = (c \<in> set ''{}()[];'')"

definition keepPart :: "string \<Rightarrow> bool" where
  \<comment> \<open>the two line heuristics; \<open>letters / s.length < 0.55\<close> is \<open>20 * letters < 11 * length\<close>\<close>
  "keepPart s =
     (\<not> (length s \<ge> 60 \<and> 20 * length (filter isLetter s) < 11 * length s)
      \<and> \<not> (length (filter isBracket s) \<ge> 8))"

definition normalizeForExtraction :: "string \<Rightarrow> string" where
  \<comment> \<open>after \<open>stripCode\<close> the text has no line break left, so it is a single part;
      the arrow characters removed by the code lie above code unit 255\<close>
  "normalizeForExtraction text =
     (let t0 = stripCode text;
          t1 = dropListMarker (dropHeading t0);
          t2 = removeUrls False False t1;
          t3 = squashRuns (\<lambda>c. c = CHR ''|'') 2 False
                 (squashRuns (\<lambda>c. c = CHR ''-'' \<or> c = CHR ''='') 3 False t2);
          s = trim t3;
          t4 = (if s \<noteq> [] \<and> keepPart s then s else [])
      in trim (collapseWs t4))"

fun splitSentences :: "string \<Rightarrow> bool \<Rightarrow> string \<Rightarrow> string list" where
  \<comment> \<open>\<open>text.split(/(?<=[.!?])\s+/)\<close>; the first argument is the sentence read so far,
      the flag is set while the separating whitespace is being consumed\<close>
  "splitSentences cur skipping [] = [cur]"
| "splitSentences cur skipping (c # cs) =
     (if skipping \<and> isSpace c then splitSentences cur True cs
      else if (c = CHR ''.'' \<or> c = CHR ''!'' \<or> c = CHR ''?'') \<and> cs \<noteq> [] \<and> isSpace (hd cs)
      then (cur @ [c]) # splitSentences [] True cs
      else splitSentences (cur @ [c]) False cs)"

fun sentenceLoop :: "string list \<Rightarrow> string list \<Rightarrow> bool \<times> string list" where
  \<comment> \<open>the inner loop; the flag is set when the loop leaves through \<open>return insights\<close>\<close>
  "sentenceLoop [] insights = (False, insights)"
| "sentenceLoop (s # ss) insights =
     (let str = trim s in
      if str = [] then sentenceLoop ss insights
      else if length str > 280 then sentenceLoop ss insights
      else
        let hit = list_ex (\<lambda>re. testAnywhere re str) insightPatterns;
            insights1 = (if hit then insights @ [if length str > 240 then take 237 str @ ''...'' else str]
                         else insights)
        in if hit \<and> length insights1 \<ge> 10 then (True, insights1)
           else
             let insights2 = (if length insights1 < 10 \<and> goalStatement str \<and> length str \<le> 200
                              then insights1 @ [str] else insights1)
             in sentenceLoop ss insights2)"

fun messageLoop :: "message list \<Rightarrow> string list \<Rightarrow> string list" where
  "messageLoop [] insights = insights"
| "messageLoop (m # ms) insights =
     (let text = normalizeForExtraction (content m) in
      if text = [] then messageLoop ms insights
      else (case sentenceLoop (splitSentences [] False text) insights of
              (True, r) \<Rightarrow> r
            | (False, r) \<Rightarrow> messageLoop ms r))"

definition extractInsights :: "message list \<Rightarrow> string list" where
  "extractInsights msgs = messageLoop msgs []"

section \<open>The conversation graph of the network adapter\<close>

datatype part = PStr string | PObj "string option" "string option" | POther

text \<open>
  A part is a string, an object whose properties are among \<open>type\<close>, \<open>text\<close> and
  \<open>content\<close> (given with its \<open>text\<close> and its \<open>content\<close>, \<open>None\<close> when the property
  is not a string), or \<open>null\<close>, a number or a boolean.
\<close>

record gmessage =
  author_role :: string
  content_type :: string
  parts :: "part list option"
  hidden :: bool
  create_time :: "nat option"

record node =
  parent :: string
  n_message :: "gmessage option"

text \<open>
  A message object is given by the properties the code reads: the role of its author (a
  string, empty when there is no author object or it has no role), the content type and
  the parts of its content object (\<open>None\<close> when there is no content object or its
  \<open>parts\<close> is not an array), the hidden flag of its metadata and its creation time in
  whole seconds (\<open>None\<close> when it is not a number). A node is an object with a parent
  link and a message.

  \<open>mapping\<close> is a JSON object: the list gives its own keys, each once, in the order of
  \<open>Object.keys\<close>, each with its value, \<open>None\<close> for a falsy value and a node otherwise
  (a truthy value that is not an object behaves as a node with neither parent nor
  message). Parent links are strings; the empty string stands for \<open>null\<close> or a missing
  link. \<open>current_node\<close> is the empty string when neither \<open>current_node\<close> nor
  \<open>currentNode\<close> is a non-empty string.
\<close>

record payload =
  mapping :: "(string \<times> node option) list"
  current_node :: string

record extracted =
  x_role :: string
  x_content :: string
  x_timestamp :: "nat option"

definition inheritedKeys :: "string list" where
  \<comment> \<open>the members every object inherits from \<open>Object.prototype\<close>\<close>
  "inheritedKeys =
     [''constructor'', ''__defineGetter__'', ''__defineSetter__'', ''hasOwnProperty'',
      ''__lookupGetter__'', ''__lookupSetter__'', ''isPrototypeOf'', ''propertyIsEnumerable'',
      ''toString'', ''valueOf'', ''__proto__'', ''toLocaleString'']"

definition lookupNode :: "(string \<times> node option) list \<Rightarrow> string \<Rightarrow> node option" where
  \<comment> \<open>\<open>mapping[id]\<close> when it is truthy: an own key gives its value; a name inherited
      from \<open>Object.prototype\<close> gives a function, or for \<open>__proto__\<close> the prototype
      itself, both truthy and with neither a parent nor a message\<close>
  "lookupNode mp k =
     (case map_of mp k of
        Some v \<Rightarrow> v
      | None \<Rightarrow> if k \<in> set inheritedKeys then Some \<lparr>parent = [], n_message = None\<rparr> else None)"

function chainLoop ::
  "(string \<times> node option) list \<Rightarrow> string \<Rightarrow> string set \<Rightarrow> string list \<Rightarrow> string list" where
  \<comment> \<open>the \<open>while\<close> loop: \<open>cur\<close>, \<open>guard\<close> and \<open>chainIds\<close>\<close>
  "chainLoop mp cur guard chainIds =
     (if cur \<noteq> [] \<and> lookupNode mp cur \<noteq> None \<and> cur \<notin> guard \<and> length chainIds < 100000
      then chainLoop mp (case lookupNode mp cur of Some n \<Rightarrow> parent n | None \<Rightarrow> [])
             (insert cur guard) (chainIds @ [cur])
      else chainIds)"
  by pat_completeness auto
termination
  by (relation "measure (\<lambda>(mp, cur, guard, chainIds). 100000 - length chainIds)") auto

declare chainLoop.simps [simp del]

definition chainIdsOf :: "payload \<Rightarrow> string list" where
  \<comment> \<open>\<open>chainIds\<close> after the walk and the \<open>reverse()\<close>\<close>
  "chainIdsOf json =
     (if current_node json \<noteq> [] \<and> lookupNode (mapping json) (current_node json) \<noteq> None
      then rev (chainLoop (mapping json) (current_node json) {} [])
      else [])"

definition normalizePartText :: "part \<Rightarrow> string" where
  "normalizePartText p =
     (case p of
        PStr s \<Rightarrow> s
      | PObj (Some t) _ \<Rightarrow> t
      | PObj None (Some c) \<Rightarrow> c
      | PObj None None \<Rightarrow> []
      | POther \<Rightarrow> [])"

definition MAX_CHATGPT_MSG_CHARS :: nat where
  "MAX_CHATGPT_MSG_CHARS = 30000"

definition nodeMessage :: "(string \<times> node option) list \<Rightarrow> string \<Rightarrow> extracted option" where
  \<comment> \<open>the body of the \<open>for\<close> loop for one id: the message pushed, if any\<close>
  "nodeMessage mp k =
     (case lookupNode mp k of
        None \<Rightarrow> None
      | Some n \<Rightarrow>
         (case n_message n of
            None \<Rightarrow> None
          | Some msg \<Rightarrow>
             if author_role msg \<noteq> ''user'' \<and> author_role msg \<noteq> ''assistant'' then None
             else if content_type msg = ''user_editable_context'' then None
             else if hidden msg then None
             else
               let text = (case parts msg of
                             None \<Rightarrow> []
                           | Some ps \<Rightarrow>
                               trim (joinWith [CHR 0x0A]
                                 (filter (\<lambda>t. t \<noteq> []) (map normalizePartText ps))))
               in if text = [] then None
                  else Some \<lparr>x_role = author_role msg,
                             x_content =
                               (if length text > MAX_CHATGPT_MSG_CHARS
                                then take MAX_CHATGPT_MSG_CHARS text @ [CHR 0x0A]
                                       @ ''[RL4_TRUNCATED_MESSAGE]''
                                else text),
                             x_timestamp = create_time msg\<rparr>))"

definition messagesOfIds :: "(string \<times> node option) list \<Rightarrow> string list \<Rightarrow> extracted list" where
  "messagesOfIds mp ids = List.map_filter (nodeMessage mp) ids"

definition extractChatGPTConversationMessages :: "payload \<Rightarrow> extracted list" where
  "extractChatGPTConversationMessages json =
     (let chainIds = chainIdsOf json;
          idsToUse = (if chainIds \<noteq> [] then chainIds else map fst (mapping json))
      in messagesOfIds (mapping json) idsToUse)"

fun walkUp :: "(string \<times> node option) list \<Rightarrow> nat \<Rightarrow> string \<Rightarrow> string list" where
  \<comment> \<open>the specification's path, leaf first: the node, its parent, and so on, for at
      most the given number of hops\<close>
  "walkUp mp 0 cur = []"
| "walkUp mp (Suc n) cur =
     (case lookupNode mp cur of
        None \<Rightarrow> []
      | Some nd \<Rightarrow> if cur = [] then [] else cur # walkUp mp n (parent nd))"

definition pathMessages :: "payload \<Rightarrow> extracted list" where
  \<comment> \<open>the messages on the path from the root to \<open>current_node\<close>, in that order\<close>
  "pathMessages json =
     messagesOfIds (mapping json) (rev (walkUp (mapping json) 100000 (current_node json)))"

text \<open>
  The content script's \<open>extractMessagesFromAnyJson\<close> handles the same payloads. It is
  modelled on conversation payloads only. The payload has the properties \<open>mapping\<close> and
  \<open>current_node\<close> and no other; a node has no property \<open>author\<close>, \<open>content\<close>,
  \<open>role\<close> or \<open>sender\<close>; a message has no property \<open>message\<close>, \<open>parts\<close> or
  \<open>text\<close>, and its content is missing or an object with no property other than
  \<open>content_type\<close> and \<open>parts\<close>; whatever else a node or a message holds (an id,
  children, a status, metadata) holds no object with a \<open>role\<close>, a \<open>sender\<close>, an
  \<open>author\<close> or a \<open>message\<close>. So the recursive walk finds nothing but the messages
  wrapped by the nodes of the mapping. The function renders a creation time as an ISO
  string, which throws a \<open>RangeError\<close> for a time outside the range of \<open>Date\<close>; the
  model keeps the seconds in \<open>x_timestamp\<close> and the error as a value. Limits of the
  engine (stack depth, argument count of a spread call) are not modelled.
\<close>

datatype jsError = RangeError

definition isoTime :: "nat option \<Rightarrow> jsError + nat option" where
  \<comment> \<open>\<open>typeof t === 'number' ? new Date(t * 1000).toISOString() : undefined\<close>\<close>
  "isoTime t =
     (case t of
        None \<Rightarrow> Inr None
      | Some secs \<Rightarrow> if secs * 1000 > 8640000000000000 then Inl RangeError else Inr (Some secs))"

definition normalizeRole :: "string \<Rightarrow> string" where
  \<comment> \<open>\<open>normalizeRole(r, r)\<close>; the empty string is \<open>null\<close>\<close>
  "normalizeRole r =
     (let l = toLowerCase r in
      if l = ''user'' \<or> l = ''human'' then ''user''
      else if l = ''assistant'' \<or> l = ''claude'' \<or> l = ''ai'' then ''assistant''
      else [])"

definition normalizeContent :: "gmessage \<Rightarrow> string" where
  \<comment> \<open>\<open>normalizeContent\<close> on the content object of a message\<close>
  "normalizeContent msg =
     (case parts msg of
        None \<Rightarrow> []
      | Some ps \<Rightarrow> trim (joinWith [CHR 0x0A] (filter (\<lambda>t. t \<noteq> []) (map normalizePartText ps))))"

definition pathNodeMessage ::
  "(string \<times> node option) list \<Rightarrow> string \<Rightarrow> jsError + extracted option" where
  \<comment> \<open>the body of the loop over \<open>idsToUse\<close> in \<open>extractMessagesFromAnyJson\<close>\<close>
  "pathNodeMessage mp k =
     (case lookupNode mp k of
        None \<Rightarrow> Inr None
      | Some n \<Rightarrow>
         (case n_message n of
            None \<Rightarrow> Inr None
          | Some msg \<Rightarrow>
             let r = normalizeRole (author_role msg) in
             if r \<noteq> ''user'' \<and> r \<noteq> ''assistant'' then Inr None
             else if content_type msg = ''user_editable_context'' then Inr None
             else if hidden msg then Inr None
             else let c = normalizeContent msg in
               if c = [] then Inr None
               else (case isoTime (create_time msg) of
                       Inl e \<Rightarrow> Inl e
                     | Inr ts \<Rightarrow> Inr (Some \<lparr>x_role = r, x_content = c, x_timestamp = ts\<rparr>))))"

definition visitNodeMessage ::
  "(string \<times> node option) list \<Rightarrow> string \<Rightarrow> jsError + extracted option" where
  \<comment> \<open>\<open>tryExtractChatGPTMessageObject\<close> on the message wrapped by a node: what it
      hands to \<open>pushOne\<close>, if anything\<close>
  "visitNodeMessage mp k =
     (case lookupNode mp k of
        None \<Rightarrow> Inr None
      | Some n \<Rightarrow>
         (case n_message n of
            None \<Rightarrow> Inr None
          | Some msg \<Rightarrow>
             let r = normalizeRole (author_role msg); c = normalizeContent msg in
             if r = [] \<or> c = [] then Inr None
             else (case isoTime (create_time msg) of
                     Inl e \<Rightarrow> Inl e
                   | Inr ts \<Rightarrow> Inr (Some \<lparr>x_role = r, x_content = c, x_timestamp = ts\<rparr>))))"

fun collectIds ::
  "(string \<Rightarrow> jsError + extracted option) \<Rightarrow> string list \<Rightarrow> jsError + extracted list" where
  \<comment> \<open>a loop over ids that stops at the first exception\<close>
  "collectIds f [] = Inr []"
| "collectIds f (k # ks) =
     (case f k of
        Inl e \<Rightarrow> Inl e
      | Inr r \<Rightarrow>
         (case collectIds f ks of
            Inl e \<Rightarrow> Inl e
          | Inr rs \<Rightarrow> Inr (case r of None \<Rightarrow> rs | Some m \<Rightarrow> m # rs)))"

fun pushUnseen ::
  "extracted list \<Rightarrow> string set \<Rightarrow> extracted list \<Rightarrow> string set \<times> extracted list" where
  \<comment> \<open>candidates added to \<open>out\<close> unless their signature is in \<open>seen\<close>\<close>
  "pushUnseen [] seen out = (seen, out)"
| "pushUnseen (m # ms) seen out =
     (let sig = signature (x_role m) (x_content m) in
      if sig \<in> seen then pushUnseen ms seen out
      else pushUnseen ms (insert sig seen) (out @ [m]))"

definition extractMessagesFromAnyJson :: "payload \<Rightarrow> jsError + extracted list" where
  \<comment> \<open>\<open>extractMessagesFromAnyJson\<close> on a conversation payload. First the path (or, as
      in the interceptor, all nodes), inside \<open>try\<close>: an exception there is swallowed
      and nothing of the path is kept. Then the recursive walk, which meets the node
      named \<open>message\<close>, if there is one, and then every node in key order; an exception
      there leaves the function\<close>
  "extractMessagesFromAnyJson json =
     (let mp = mapping json;
          chainIds = chainIdsOf json;
          idsToUse = (if chainIds \<noteq> [] then chainIds else map fst mp);
          (seen1, out1) = (case collectIds (pathNodeMessage mp) idsToUse of
                             Inl _ \<Rightarrow> ({}, [])
                           | Inr xs \<Rightarrow> pushUnseen xs {} []);
          visited = (case map_of mp ''message'' of Some (Some _) \<Rightarrow> [''message''] | _ \<Rightarrow> [])
                    @ map fst mp
      in case collectIds (visitNodeMessage mp) visited of
           Inl e \<Rightarrow> Inl e
         | Inr ys \<Rightarrow> Inr (snd (pushUnseen ys seen1 out1)))"

text \<open>The set of dedup signatures of a list of extracted messages.\<close>

definition sigsOfX :: "extracted list \<Rightarrow> string set" where
  "sigsOfX ms = set (map (\<lambda>m. signature (x_role m) (x_content m)) ms)"

section \<open>Example data\<close>

definition exUser :: "string \<Rightarrow> message" where
  "exUser c = \<lparr>msg_id = ''msg-1'', role = ''user'', content = c, timestamp = ''t'',
              session_id = ''conv-1'', captured_at = 0\<rparr>"

definition exAssistant :: "string \<Rightarrow> message" where
  "exAssistant c = \<lparr>msg_id = ''msg-2'', role = ''assistant'', content = c, timestamp = ''t'',
                   session_id = ''conv-1'', captured_at = 0\<rparr>"

definition exRunning :: tabState where
  "exRunning = \<lparr>snapshotJobRunning = True, captureIdActive = ''cap-7'', chatgptChunkSeen = {},
                jobTabId = Some 3, jobStrategy = ''dom'', lastProgressWriteAt = 10,
                progressRecord = Some [(''captureId'', ''cap-7''), (''phase'', ''scan'')],
                effects = [RunJob]\<rparr>"

definition exRequest :: startRequest where
  "exRequest = \<lparr>req_captureId = ''cap-8'', req_senderTab = Some 3\<rparr>"

definition exEnv :: scanEnv where
  "exEnv = \<lparr>nowIso = ''2026-01-01T00:00:00.000Z'', nowMs = 1000, sessionId = ''conv-1''\<rparr>"

definition exGenEnv :: genEnv where
  "exGenEnv = \<lparr>exTopics = (\<lambda>ms. [\<lparr>label = ''snapshot'', weight = 300, message_refs = [''msg-1''],
                                      summary = ''snapshot (3x)''\<rparr>]),
               exDecisions = (\<lambda>ms. []), exInsights = (\<lambda>ms. []),
               envIso = ''2026-01-01T00:00:00.000Z'', envMs = 255,
               check1 = 100, check2 = 5000, check3 = 6000\<rparr>"

definition exLate :: genEnv where
  "exLate = exGenEnv\<lparr>check1 := 9000\<rparr>"

definition exUltra :: jobOptions where
  "exUltra = \<lparr>jo_outputMode = Some ''ultra'', jo_includeTranscript = True,
               jo_wantsIntegritySeal = False\<rparr>"

definition exDigest :: jobOptions where
  "exDigest = \<lparr>jo_outputMode = Some ''digest'', jo_includeTranscript = True,
                jo_wantsIntegritySeal = True\<rparr>"

definition exInTime :: genEnv where
  "exInTime = exGenEnv\<lparr>check2 := 200, check3 := 300\<rparr>"

text \<open>The dedup signatures of a message list, in order.\<close>

definition sigsOf :: "message list \<Rightarrow> string list" where
  "sigsOf ms = map (\<lambda>m. signature (role m) (content m)) ms"

definition exParsed1 :: "candidate list" where
  "exParsed1 = [\<lparr>c_role = ''user'', c_content = ''ok thanks''\<rparr>,
                \<lparr>c_role = ''assistant'', c_content = ''done''\<rparr>,
                \<lparr>c_role = ''user'', c_content = ''ok''\<rparr>]"

definition exParsed2 :: "candidate list" where
  "exParsed2 = [\<lparr>c_role = ''user'', c_content = ''ok thanks''\<rparr>]"

definition exNotes :: "message list" where
  "exNotes = replicate 9 (exAssistant ''Note: a'')
             @ [exUser ''We need to b'', exAssistant ''Note: c'']"

text \<open>The longest prefix of a list in which no element occurs twice.\<close>

fun distinctPrefix :: "'a set \<Rightarrow> 'a list \<Rightarrow> 'a list" where
  "distinctPrefix seen [] = []"
| "distinctPrefix seen (x # xs) =
     (if x \<in> seen then [] else x # distinctPrefix (insert x seen) xs)"

definition exMsg :: "string \<Rightarrow> string \<Rightarrow> gmessage" where
  "exMsg r t = \<lparr>author_role = r, content_type = ''text'', parts = Some [PStr t],
               hidden = False, create_time = Some 1700000000\<rparr>"

definition exMapping :: "(string \<times> node option) list" where
  "exMapping =
     [(''a'', Some \<lparr>parent = [], n_message = Some (exMsg ''user'' ''question'')\<rparr>),
      (''b'', Some \<lparr>parent = ''a'', n_message = Some (exMsg ''assistant'' ''first answer'')\<rparr>),
      (''c'', Some \<lparr>parent = ''a'', n_message = Some (exMsg ''assistant'' ''second answer'')\<rparr>)]"

definition exX :: "string \<Rightarrow> string \<Rightarrow> extracted" where
  "exX r t = \<lparr>x_role = r, x_content = t, x_timestamp = Some 1700000000\<rparr>"

section \<open>Job control: one job per tab\<close>

lemma startSnapshotJob_running:
  "snapshotJobRunning st \<Longrightarrow> startSnapshotJob now provider req st = (jobAlreadyRunning, st)"
  by (simp add: startSnapshotJob_def jobAlreadyRunning_def Let_def)

lemma startSnapshotJob_idle:
  "\<not> snapshotJobRunning st \<Longrightarrow>
     snapshotJobRunning (snd (startSnapshotJob now provider req st))
     \<and> count_list (effects (snd (startSnapshotJob now provider req st))) RunJob
         = Suc (count_list (effects st) RunJob)"
  by (simp add: startSnapshotJob_def Let_def)

lemma startAll_running:
  "snapshotJobRunning st \<Longrightarrow>
     startAll provider reqs st = (replicate (length reqs) jobAlreadyRunning, st)"
proof (induction reqs)
  case Nil
  show ?case by simp
next
  case (Cons r reqs)
  obtain now req where r: "r = (now, req)" by (cases r)
  from Cons show ?case
    by (simp add: r startSnapshotJob_running)
qed

text \<open>
  C7. While a job is running on the tab, every start request is answered with the error
  \<open>JOB_ALREADY_RUNNING\<close> and leaves the whole state of the tab as it was: the capture id,
  the progress record, and the list of issued effects, so that no second job is started
  or queued.
\<close>

theorem start_rejected_while_running:
  "snapshotJobRunning st \<Longrightarrow>
     startSnapshotJob now provider req st = (jobAlreadyRunning, st)
     \<and> startAll provider reqs st = (replicate (length reqs) jobAlreadyRunning, st)"
  by (simp add: startSnapshotJob_running startAll_running)

theorem start_rejected_while_running_witness:
  "snapshotJobRunning exRunning
   \<and> startAll ''chatgpt'' [(11, exRequest), (12, exRequest)] exRunning
       = ([jobAlreadyRunning, jobAlreadyRunning], exRunning)"
proof -
  have h: "snapshotJobRunning exRunning" by (simp add: exRunning_def)
  show ?thesis
    using h start_rejected_while_running [OF h, of 11 "''chatgpt''" exRequest "[(11, exRequest), (12, exRequest)]"]
    by (simp del: startAll.simps)
qed

lemma startAll_single_job:
  "\<not> snapshotJobRunning st \<Longrightarrow> reqs \<noteq> [] \<Longrightarrow>
     count_list (effects (snd (startAll provider reqs st))) RunJob
       = Suc (count_list (effects st) RunJob)"
proof (cases reqs)
  case Nil
  assume "reqs \<noteq> []"
  with Nil show ?thesis by simp
next
  case (Cons r rs)
  assume idle: "\<not> snapshotJobRunning st"
  obtain now req where r: "r = (now, req)" by (cases r)
  obtain resp st' where s: "startSnapshotJob now provider req st = (resp, st')"
    by (cases "startSnapshotJob now provider req st")
  from startSnapshotJob_idle [OF idle, of now provider req] s
  have run: "snapshotJobRunning st'"
    and cnt: "count_list (effects st') RunJob = Suc (count_list (effects st) RunJob)"
    by simp_all
  from startAll_running [OF run, of provider rs]
  have "startAll provider rs st' = (replicate (length rs) jobAlreadyRunning, st')" .
  with Cons r s cnt show ?thesis
    by simp
qed

section \<open>Choosing the final message list\<close>

text \<open>
  C4 (amended). The job and the \<open>getMessages\<close> handler take one list whole: the
  API-derived list when it has at least as many messages as the page capture, the page
  capture otherwise. The result is always one of the two lists, unchanged, and has the
  larger of the two lengths; for lists of 12 and 15 messages it is the list of 15.
\<close>

theorem pickMessages_richest:
  "(pickMessages apiMsgs domMsgs = apiMsgs \<or> pickMessages apiMsgs domMsgs = domMsgs)
   \<and> length (pickMessages apiMsgs domMsgs) = max (length apiMsgs) (length domMsgs)
   \<and> (length domMsgs \<le> length apiMsgs \<longrightarrow> pickMessages apiMsgs domMsgs = apiMsgs)
   \<and> (length apiMsgs < length domMsgs \<longrightarrow> pickMessages apiMsgs domMsgs = domMsgs)"
  by (simp add: pickMessages_def)

theorem pickMessages_richest_witness:
  "length (replicate 12 (exUser ''a'')) < length (replicate 15 (exAssistant ''b''))
   \<and> pickMessages (replicate 12 (exUser ''a'')) (replicate 15 (exAssistant ''b''))
       = replicate 15 (exAssistant ''b'')
   \<and> length (pickMessages (replicate 12 (exUser ''a'')) (replicate 15 (exAssistant ''b''))) = 15
   \<and> length [exAssistant ''b''] \<le> length [exUser ''a'']
   \<and> pickMessages [exUser ''a''] [exAssistant ''b''] = [exUser ''a'']"
  using pickMessages_richest [of "replicate 12 (exUser ''a'')" "replicate 15 (exAssistant ''b'')"]
    pickMessages_richest [of "[exUser ''a'']" "[exAssistant ''b'']"]
  by simp

text \<open>
  Lists of close counts are not merged: with one API message and one different page
  message the counts are equal, yet the page message is not in the final list.
\<close>

theorem pickMessages_merges_counterexample:
  "length [exUser ''question''] = length [exAssistant ''answer'']
   \<and> pickMessages [exUser ''question''] [exAssistant ''answer''] = [exUser ''question'']
   \<and> exAssistant ''answer'' \<notin> set (pickMessages [exUser ''question''] [exAssistant ''answer''])"
  by (simp add: pickMessages_def exUser_def exAssistant_def)

section \<open>Streaming continuation\<close>









section \<open>Partial snapshots\<close>

lemma getKey_setKey:
  "getKey k (setKey k' v snap) = (if k = k' then Some v else getKey k snap)"
  by (induction snap) (auto simp: getKey_def)

lemma map_fst_setKey:
  "map fst (setKey k v snap) = (if k \<in> set (map fst snap) then map fst snap else map fst snap @ [k])"
  by (induction snap) (auto split: if_splits)

lemma hasKey_setKey: "hasKey k (setKey k' v snap) = (k = k' \<or> hasKey k snap)"
  unfolding hasKey_def map_fst_setKey by auto

lemma getKey_partial_messages:
  "getKey ''messages'' (generatePartialSnapshot env g reason []) =
     Some (JMessages (map (\<lambda>m. m\<lparr>session_id := pickSessionId (envIso env) (envMs env) (g_messages g)\<rparr>)
                        (g_messages g)))"
  by (simp add: generatePartialSnapshot_def getKey_def Let_def)

lemma getKey_partial_messages_topics:
  "getKey ''messages'' (generatePartialSnapshot env g reason [(''topics'', t)]) =
     Some (JMessages (map (\<lambda>m. m\<lparr>session_id := pickSessionId (envIso env) (envMs env) (g_messages g)\<rparr>)
                        (g_messages g)))"
  by (simp add: generatePartialSnapshot_def getKey_def Let_def)

lemma getKey_partial_messages_decisions:
  "getKey ''messages'' (generatePartialSnapshot env g reason [(''topics'', t), (''decisions'', d)]) =
     Some (JMessages (map (\<lambda>m. m\<lparr>session_id := pickSessionId (envIso env) (envMs env) (g_messages g)\<rparr>)
                        (g_messages g)))"
  by (simp add: generatePartialSnapshot_def getKey_def Let_def)

lemma generate_partial_messages:
  assumes "deadline (g_budget g) < check1 env \<or> deadline (g_budget g) < check2 env
           \<or> deadline (g_budget g) < check3 env"
  shows "getKey ''messages'' (generate env g) =
     Some (JMessages (map (\<lambda>m. m\<lparr>session_id := pickSessionId (envIso env) (envMs env) (g_messages g)\<rparr>)
                        (g_messages g)))"
proof -
  consider (a) "deadline (g_budget g) < check1 env"
    | (b) "\<not> deadline (g_budget g) < check1 env" "deadline (g_budget g) < check2 env"
    | (c) "\<not> deadline (g_budget g) < check1 env" "\<not> deadline (g_budget g) < check2 env"
          "deadline (g_budget g) < check3 env"
    using assms by blast
  then show ?thesis
  proof cases
    case a
    then show ?thesis by (simp add: generate_def Let_def getKey_partial_messages)
  next
    case b
    then show ?thesis by (simp add: generate_def Let_def getKey_partial_messages_topics)
  next
    case c
    then show ?thesis by (simp add: generate_def Let_def getKey_partial_messages_decisions)
  qed
qed

text \<open>
  C10. A partial snapshot carries every input message in its \<open>messages\<close> field, in
  order, each with the session id chosen for the snapshot; this holds for every reason
  and every message list, and for the snapshot a job returns when a deadline check fails,
  whatever the size of the capture and the output mode.
\<close>

theorem partial_snapshot_keeps_messages:
  "getKey ''messages'' (generatePartialSnapshot env g reason []) =
     Some (JMessages (map (\<lambda>m. m\<lparr>session_id := pickSessionId (envIso env) (envMs env) (g_messages g)\<rparr>)
                        (g_messages g)))
   \<and> getKey ''session_id'' (generatePartialSnapshot env g reason []) =
       Some (JStr (pickSessionId (envIso env) (envMs env) (g_messages g)))
   \<and> (now + 2000 < check1 env \<or> now + 2000 < check2 env \<or> now + 2000 < check3 env \<longrightarrow>
       getKey ''messages'' (runSnapshotJob env now opts apiMsgs domMsgs) =
         Some (JMessages
           (map (\<lambda>m. m\<lparr>session_id :=
                        pickSessionId (envIso env) (envMs env) (pickMessages apiMsgs domMsgs)\<rparr>)
              (pickMessages apiMsgs domMsgs))))"
proof -
  have job: "getKey ''messages'' (runSnapshotJob env now opts apiMsgs domMsgs) =
         Some (JMessages
           (map (\<lambda>m. m\<lparr>session_id :=
                        pickSessionId (envIso env) (envMs env) (pickMessages apiMsgs domMsgs)\<rparr>)
              (pickMessages apiMsgs domMsgs)))"
    if late: "now + 2000 < check1 env \<or> now + 2000 < check2 env \<or> now + 2000 < check3 env"
  proof -
    let ?g = "newGenerator now (pickMessages apiMsgs domMsgs)
                (Some (jobIncludeTranscript opts (pickMessages apiMsgs domMsgs))) (jobOutputMode opts)"
    have "deadline (g_budget ?g) < check1 env \<or> deadline (g_budget ?g) < check2 env
           \<or> deadline (g_budget ?g) < check3 env"
      using late by (simp add: newGenerator_def)
    from generate_partial_messages [OF this]
    show ?thesis
      by (simp add: runSnapshotJob_def Let_def getKey_setKey newGenerator_def)
  qed
  show ?thesis
    using job
    by (simp add: getKey_partial_messages) (simp add: generatePartialSnapshot_def getKey_def Let_def)
qed

lemma pickSessionId_ex: "pickSessionId i n [exUser ''q'', exAssistant ''a''] = ''conv-1''"
  by (simp add: pickSessionId_def exUser_def exAssistant_def startsWith_def)

theorem partial_snapshot_keeps_messages_witness:
  "2 + 2000 < check1 exLate
   \<and> getKey ''messages''
       (runSnapshotJob exLate 2
          \<lparr>jo_outputMode = Some ''digest'', jo_includeTranscript = False, jo_wantsIntegritySeal = False\<rparr>
          [exUser ''q'', exAssistant ''a''] [])
       = Some (JMessages [exUser ''q'', exAssistant ''a''])"
proof -
  have h: "2 + 2000 < check1 exLate" by (simp add: exLate_def exGenEnv_def)
  have p: "pickMessages [exUser ''q'', exAssistant ''a''] [] = [exUser ''q'', exAssistant ''a'']"
    by (simp add: pickMessages_def)
  have s: "[exUser ''q'', exAssistant ''a'']
             = map (\<lambda>m. m\<lparr>session_id := ''conv-1''\<rparr>) [exUser ''q'', exAssistant ''a'']"
    by (simp add: exUser_def exAssistant_def)
  show ?thesis
    using h partial_snapshot_keeps_messages [of exLate "newGenerator 0 [] None []" "''r''" 2
        "\<lparr>jo_outputMode = Some ''digest'', jo_includeTranscript = False, jo_wantsIntegritySeal = False\<rparr>"
        "[exUser ''q'', exAssistant ''a'']" "[]"] s
    by (simp add: p pickSessionId_ex)
qed

section \<open>Deadlines and the transcript field\<close>

lemma getKey_partial_topics:
  "getKey k (generatePartialSnapshot env g reason [(''topics'', JTopics ts)]) =
     (if k = ''topics'' then Some (JTopics ts)
      else getKey k (generatePartialSnapshot env g reason []))"
  by (simp add: generatePartialSnapshot_def getKey_def Let_def)

lemma partial_base_fields:
  "getKey ''partial'' (generatePartialSnapshot env g reason []) = Some (JBool True)"
  "getKey ''partial_reason'' (generatePartialSnapshot env g reason []) = Some (JStr reason)"
  "getKey ''decisions'' (generatePartialSnapshot env g reason []) = Some (JDecisions [])"
  "getKey ''insights'' (generatePartialSnapshot env g reason []) = Some (JInsights [])"
  by (simp_all add: generatePartialSnapshot_def getKey_def Let_def)

lemma generate_after_topics:
  "check1 env \<le> deadline (g_budget g) \<Longrightarrow> deadline (g_budget g) < check2 env \<Longrightarrow>
     generate env g =
       generatePartialSnapshot env g ''deadline_exceeded''
         [(''topics'', JTopics (take (maxTopics (g_budget g)) (exTopics env (g_messages g))))]"
  by (simp add: generate_def Let_def)

text \<open>
  C5. When the clock is within the deadline at the first check and past it at the second,
  that is after topic extraction and before decision extraction, \<open>generate()\<close> returns
  a snapshot with \<open>partial\<close> true, \<open>partial_reason\<close> set to \<open>deadline_exceeded\<close>, the
  extracted topics (cut to the budget) under \<open>topics\<close>, and empty \<open>decisions\<close> and
  \<open>insights\<close>.
\<close>

theorem deadline_after_topics_partial:
  assumes "check1 env \<le> deadline (g_budget g)" and "deadline (g_budget g) < check2 env"
  shows "getKey ''partial'' (generate env g) = Some (JBool True)
       \<and> getKey ''partial_reason'' (generate env g) = Some (JStr ''deadline_exceeded'')
       \<and> getKey ''topics'' (generate env g) =
           Some (JTopics (take (maxTopics (g_budget g)) (exTopics env (g_messages g))))
       \<and> getKey ''decisions'' (generate env g) = Some (JDecisions [])
       \<and> getKey ''insights'' (generate env g) = Some (JInsights [])"
  by (simp add: generate_after_topics [OF assms] getKey_partial_topics partial_base_fields)

theorem deadline_after_topics_partial_witness:
  "check1 exGenEnv \<le> deadline (g_budget (newGenerator 50 (replicate 40 (exUser ''snapshot'')) None ''digest''))
   \<and> deadline (g_budget (newGenerator 50 (replicate 40 (exUser ''snapshot'')) None ''digest'')) < check2 exGenEnv
   \<and> getKey ''partial'' (generate exGenEnv (newGenerator 50 (replicate 40 (exUser ''snapshot'')) None ''digest''))
       = Some (JBool True)
   \<and> getKey ''topics'' (generate exGenEnv (newGenerator 50 (replicate 40 (exUser ''snapshot'')) None ''digest''))
       = Some (JTopics [\<lparr>label = ''snapshot'', weight = 300, message_refs = [''msg-1''],
                         summary = ''snapshot (3x)''\<rparr>])
   \<and> getKey ''decisions'' (generate exGenEnv (newGenerator 50 (replicate 40 (exUser ''snapshot'')) None ''digest''))
       = Some (JDecisions [])"
proof -
  let ?g = "newGenerator 50 (replicate 40 (exUser ''snapshot'')) None ''digest''"
  have h1: "check1 exGenEnv \<le> deadline (g_budget ?g)"
    by (simp add: exGenEnv_def newGenerator_def)
  have h2: "deadline (g_budget ?g) < check2 exGenEnv"
    by (simp add: exGenEnv_def newGenerator_def)
  have t: "take (maxTopics (g_budget ?g)) (exTopics exGenEnv (g_messages ?g))
           = [\<lparr>label = ''snapshot'', weight = 300, message_refs = [''msg-1''],
               summary = ''snapshot (3x)''\<rparr>]"
    by (simp add: exGenEnv_def newGenerator_def)
  show ?thesis
    using h1 h2 deadline_after_topics_partial [OF h1 h2] t by simp
qed

lemma no_transcript_partial:
  "\<not> hasKey ''transcript_compact'' (generatePartialSnapshot env g reason [])"
  "\<not> hasKey ''transcript_compact'' (generatePartialSnapshot env g reason [(''topics'', t)])"
  "\<not> hasKey ''transcript_compact''
       (generatePartialSnapshot env g reason [(''topics'', t), (''decisions'', d)])"
  by (simp_all add: generatePartialSnapshot_def hasKey_def Let_def)

lemma no_transcript_digest:
  "\<not> hasKey ''transcript_compact'' (buildDigest sid nowStr topics decisions insights)"
  by (simp add: buildDigest_def hasKey_def)

lemma no_transcript_ultra:
  "\<not> hasKey ''transcript_compact'' (buildUltraSnapshot digest hints)"
  by (cases hints) (simp_all add: buildUltraSnapshot_def ultraSemanticHints_def hasKey_def)

lemma generate_transcript_only_if:
  assumes "hasKey ''transcript_compact'' (generate env g)"
  shows "g_includeTranscript g \<and> g_outputMode g \<noteq> ''ultra'' \<and> g_outputMode g \<noteq> ''ultra_plus''"
proof (rule ccontr)
  assume n: "\<not> (g_includeTranscript g \<and> g_outputMode g \<noteq> ''ultra'' \<and> g_outputMode g \<noteq> ''ultra_plus'')"
  have "\<not> hasKey ''transcript_compact'' (generate env g)"
    using n
    by (auto simp: generate_def Let_def hasKey_setKey no_transcript_partial no_transcript_digest
        no_transcript_ultra)
  with assms show False by simp
qed

lemma generate_transcript_if:
  assumes "check1 env \<le> deadline (g_budget g)" "check2 env \<le> deadline (g_budget g)"
    "check3 env \<le> deadline (g_budget g)"
    "g_includeTranscript g" "g_outputMode g \<noteq> ''ultra''" "g_outputMode g \<noteq> ''ultra_plus''"
  shows "hasKey ''transcript_compact'' (generate env g)"
  using assms by (simp add: generate_def Let_def hasKey_setKey)

text \<open>
  C2. The snapshot of a job has no \<open>transcript_compact\<close> field when the requested mode
  is \<open>ultra\<close> or \<open>ultra_plus\<close>, and none when the chosen message list has more than
  1500 messages or more than 1,200,000 characters of content, whatever the
  \<open>includeTranscript\<close> option says.
\<close>

theorem transcript_omitted:
  "(jobOutputMode opts = ''ultra'' \<or> jobOutputMode opts = ''ultra_plus''
      \<longrightarrow> \<not> hasKey ''transcript_compact'' (runSnapshotJob env now opts apiMsgs domMsgs))
   \<and> (length (pickMessages apiMsgs domMsgs) > 1500
        \<or> approxChars (pickMessages apiMsgs domMsgs) > 1200000
      \<longrightarrow> \<not> hasKey ''transcript_compact'' (runSnapshotJob env now opts apiMsgs domMsgs))"
proof -
  let ?msgs = "pickMessages apiMsgs domMsgs"
  let ?g = "newGenerator now ?msgs (Some (jobIncludeTranscript opts ?msgs)) (jobOutputMode opts)"
  have job: "hasKey ''transcript_compact'' (runSnapshotJob env now opts apiMsgs domMsgs)
             = hasKey ''transcript_compact'' (generate env ?g)"
    by (simp add: runSnapshotJob_def Let_def hasKey_setKey)
  have inc: "g_includeTranscript ?g = jobIncludeTranscript opts ?msgs"
    by (simp add: newGenerator_def)
  have a: "\<not> jobIncludeTranscript opts ?msgs"
    if "jobOutputMode opts = ''ultra'' \<or> jobOutputMode opts = ''ultra_plus''"
    using that by (auto simp: jobIncludeTranscript_def Let_def)
  have b: "\<not> jobIncludeTranscript opts ?msgs"
    if "length ?msgs > 1500 \<or> approxChars ?msgs > 1200000"
    using that by (auto simp: jobIncludeTranscript_def Let_def)
  show ?thesis
    using a b generate_transcript_only_if [of env ?g] unfolding job inc by blast
qed

theorem transcript_omitted_witness:
  "jobOutputMode exUltra = ''ultra''
   \<and> \<not> hasKey ''transcript_compact'' (runSnapshotJob exInTime 50 exUltra [exUser ''q''] [])
   \<and> length (pickMessages (replicate 1501 (exUser ''q'')) []) > 1500
   \<and> \<not> hasKey ''transcript_compact''
         (runSnapshotJob exInTime 50 exDigest (replicate 1501 (exUser ''q'')) [])"
proof -
  have u: "jobOutputMode exUltra = ''ultra''" by (simp add: jobOutputMode_def exUltra_def)
  have l: "length (pickMessages (replicate 1501 (exUser ''q'')) []) > 1500"
    by (simp add: pickMessages_def)
  show ?thesis
    using u l transcript_omitted [of exUltra exInTime 50 "[exUser ''q'']" "[]"]
      transcript_omitted [of exDigest exInTime 50 "replicate 1501 (exUser ''q'')" "[]"]
    by blast
qed

lemma digest_transcript_included:
  "hasKey ''transcript_compact'' (runSnapshotJob exInTime 50 exDigest [exUser ''q''] [])"
proof -
  have p: "pickMessages [exUser ''q''] [] = [exUser ''q'']" by (simp add: pickMessages_def)
  have i: "jobIncludeTranscript exDigest [exUser ''q'']"
    by (simp add: jobIncludeTranscript_def jobOutputMode_def exDigest_def approxChars_def exUser_def)
  have "hasKey ''transcript_compact''
          (generate exInTime (newGenerator 50 [exUser ''q''] (Some True) ''digest''))"
    by (rule generate_transcript_if)
       (simp_all add: newGenerator_def exInTime_def exGenEnv_def)
  then show ?thesis
    using i by (simp add: runSnapshotJob_def Let_def hasKey_setKey p jobOutputMode_def exDigest_def)
qed

section \<open>The dedup signature\<close>

lemma digit_char_inj:
  "a < 10 \<Longrightarrow> b < 10 \<Longrightarrow> (char_of (48 + a) :: char) = char_of (48 + b) \<Longrightarrow> a = (b::nat)"
proof -
  assume a: "a < 10" and b: "b < 10" and e: "(char_of (48 + a) :: char) = char_of (48 + b)"
  have "(of_char (char_of (48 + a) :: char) :: nat) = of_char (char_of (48 + b) :: char)"
    using e by simp
  then have "(48 + a) mod 256 = (48 + b) mod 256" by simp
  with a b show "a = b" by simp
qed

lemma digit_char_not_bar: "(a::nat) < 10 \<Longrightarrow> (char_of (48 + a) :: char) \<noteq> CHR ''|''"
proof
  assume a: "a < 10" and e: "(char_of (48 + a) :: char) = CHR ''|''"
  have "(of_char (char_of (48 + a) :: char) :: nat) = of_char (CHR ''|'')"
    using e by simp
  then have "(48 + a) mod 256 = 124" by simp
  with a show False by simp
qed

lemma string_of_nat_nonempty: "string_of_nat n \<noteq> []"
  by (subst string_of_nat.simps) simp

lemma string_of_nat_length: "(length (string_of_nat n) = Suc 0) = (n < 10)"
  by (subst string_of_nat.simps) (simp add: string_of_nat_nonempty)

lemma string_of_nat_no_bar: "CHR ''|'' \<notin> set (string_of_nat n)"
proof (induction n rule: string_of_nat.induct)
  case (1 n)
  show ?case
  proof (cases "n < 10")
    case True
    then show ?thesis
      using digit_char_not_bar [of n] by (subst string_of_nat.simps) auto
  next
    case False
    then show ?thesis
      using 1 digit_char_not_bar [of "n mod 10"]
      by (subst string_of_nat.simps) auto
  qed
qed

lemma string_of_nat_inj: "string_of_nat n = string_of_nat m \<Longrightarrow> n = m"
proof (induction n arbitrary: m rule: string_of_nat.induct)
  case (1 n)
  show ?case
  proof (cases "n < 10")
    case True
    then have "length (string_of_nat n) = Suc 0" by (simp add: string_of_nat_length)
    then have m: "m < 10" using "1.prems" by (simp add: string_of_nat_length)
    have "string_of_nat n = [char_of (48 + n)]" "string_of_nat m = [char_of (48 + m)]"
      using True m by (subst string_of_nat.simps, simp)+
    with "1.prems" True m show ?thesis by (simp add: digit_char_inj)
  next
    case False
    then have "length (string_of_nat n) \<noteq> Suc 0" by (simp add: string_of_nat_length)
    then have m: "\<not> m < 10" using "1.prems" by (simp add: string_of_nat_length)
    have n': "string_of_nat n = string_of_nat (n div 10) @ [char_of (48 + n mod 10)]"
      using False by (subst string_of_nat.simps) simp
    have m': "string_of_nat m = string_of_nat (m div 10) @ [char_of (48 + m mod 10)]"
      using m by (subst string_of_nat.simps) simp
    from "1.prems" n' m' have e1: "string_of_nat (n div 10) = string_of_nat (m div 10)"
      and e2: "(char_of (48 + n mod 10) :: char) = char_of (48 + m mod 10)" by simp_all
    from "1.IH" [OF False e1] have d: "n div 10 = m div 10" .
    from e2 have r: "n mod 10 = m mod 10" by (intro digit_char_inj) simp_all
    from d r show ?thesis by (metis div_mult_mod_eq)
  qed
qed

lemma takeWhile_until: "c \<notin> set a \<Longrightarrow> takeWhile (\<lambda>z. z \<noteq> c) (a @ c # x) = a"
  by (induction a) auto

lemma split_at_bar:
  assumes "c \<notin> set a" "c \<notin> set b" "a @ c # x = b @ c # y"
  shows "a = b \<and> x = y"
proof -
  have "takeWhile (\<lambda>z. z \<noteq> c) (a @ c # x) = a" "takeWhile (\<lambda>z. z \<noteq> c) (b @ c # y) = b"
    using assms(1,2) by (simp_all add: takeWhile_until)
  with assms(3) have "a = b" by simp
  with assms(3) show ?thesis by simp
qed

lemma signature_long:
  "length (normalizeSig s) > 220 \<Longrightarrow> signature r s = signature_spec 220 r s"
  by (simp add: signature_def signature_spec_def Let_def)

lemma signature_short:
  "length (normalizeSig s) \<le> 220 \<Longrightarrow>
     signature r s = roleOrUnknown r @ ''|'' @ string_of_nat (length (normalizeSig s)) @ ''|''
                       @ normalizeSig s @ ''|''"
  by (simp add: signature_def Let_def)

lemma signature_eqD:
  assumes "signature r s1 = signature r s2"
  shows "length (normalizeSig s1) = length (normalizeSig s2)
       \<and> take 220 (normalizeSig s1) = take 220 (normalizeSig s2)
       \<and> drop (length (normalizeSig s1) - 220) (normalizeSig s1)
           = drop (length (normalizeSig s2) - 220) (normalizeSig s2)"
proof -
  let ?c1 = "normalizeSig s1" and ?c2 = "normalizeSig s2"
  let ?t1 = "if length ?c1 > 220 then drop (length ?c1 - 220) ?c1 else []"
  let ?t2 = "if length ?c2 > 220 then drop (length ?c2 - 220) ?c2 else []"
  from assms have
    "string_of_nat (length ?c1) @ CHR ''|'' # (take 220 ?c1 @ ''|'' @ ?t1)
       = string_of_nat (length ?c2) @ CHR ''|'' # (take 220 ?c2 @ ''|'' @ ?t2)"
    by (simp add: signature_def Let_def)
  from split_at_bar [OF string_of_nat_no_bar string_of_nat_no_bar this]
  have n: "string_of_nat (length ?c1) = string_of_nat (length ?c2)"
    and rest: "take 220 ?c1 @ ''|'' @ ?t1 = take 220 ?c2 @ ''|'' @ ?t2" by simp_all
  from string_of_nat_inj [OF n] have len: "length ?c1 = length ?c2" .
  then have "length (take 220 ?c1) = length (take 220 ?c2)" by simp
  with rest have h: "take 220 ?c1 = take 220 ?c2" and t: "?t1 = ?t2" by simp_all
  have tl: "drop (length ?c1 - 220) ?c1 = drop (length ?c2 - 220) ?c2"
  proof (cases "length ?c1 > 220")
    case True
    with t len show ?thesis by simp
  next
    case False
    with len h show ?thesis by simp
  qed
  from len h tl show ?thesis by simp
qed

text \<open>
  C8 (amended). The signature of the content script is the role (or \<open>unknown\<close>), the
  length of the normalized content, its first 220 characters and, only when it is longer
  than 220 characters, its last 220 characters, separated by bars; for shorter contents
  the tail is empty and the head is the whole normalized content. It is not a prefix-only
  signature: two contents with the same signature under one role have normalized forms of
  the same length, the same first 220 and the same last 220 characters.
\<close>

theorem signature_shape:
  "(length (normalizeSig s) > 220 \<longrightarrow> signature r s = signature_spec 220 r s)
   \<and> (length (normalizeSig s) \<le> 220 \<longrightarrow>
        signature r s = roleOrUnknown r @ ''|'' @ string_of_nat (length (normalizeSig s)) @ ''|''
                          @ normalizeSig s @ ''|'')
   \<and> (signature r s = signature r s' \<longrightarrow>
        length (normalizeSig s) = length (normalizeSig s')
        \<and> take 220 (normalizeSig s) = take 220 (normalizeSig s')
        \<and> drop (length (normalizeSig s) - 220) (normalizeSig s)
            = drop (length (normalizeSig s') - 220) (normalizeSig s'))"
  using signature_long [of s r] signature_short [of s r] signature_eqD [of r s s'] by blast

theorem signature_shape_witness:
  "length (normalizeSig ''Hello   World '') \<le> 220
   \<and> signature ''user'' ''Hello   World '' = ''user|11|hello world|''
   \<and> signature ''user'' ''Hello   World '' = signature ''user'' ''hello world''
   \<and> length (normalizeSig ''Hello   World '') = length (normalizeSig ''hello world'')
   \<and> length (normalizeSig (replicate 221 CHR ''A'')) > 220
   \<and> signature ''user'' (replicate 221 CHR ''A'') = signature_spec 220 ''user'' (replicate 221 CHR ''A'')"
proof -
  have l: "length (normalizeSig ''Hello   World '') \<le> 220" by code_simp
  have v: "signature ''user'' ''Hello   World '' = ''user|11|hello world|''" by code_simp
  have e: "signature ''user'' ''Hello   World '' = signature ''user'' ''hello world''" by code_simp
  have g: "length (normalizeSig (replicate 221 CHR ''A'')) > 220" by code_simp
  have len: "length (normalizeSig ''Hello   World '') = length (normalizeSig ''hello world'')"
    using signature_shape [of "''Hello   World ''" "''user''" "''hello world''"] e by blast
  have lg: "signature ''user'' (replicate 221 CHR ''A'')
              = signature_spec 220 ''user'' (replicate 221 CHR ''A'')"
    using signature_shape [of "replicate 221 CHR ''A''" "''user''" "[]"] g by blast
  from l v e len g lg show ?thesis by blast
qed

text \<open>
  The older variant kept in \<open>content.js\<close> looks at the first 300 characters only.
\<close>

lemma signature_legacy_prefix_only:
  "take 300 (normalizeSig s) = take 300 (normalizeSig s') \<Longrightarrow>
     signature_legacy r s = signature_legacy r s'"
  by (simp add: signature_legacy_def)

text \<open>
  On a short content the signature differs from the one the specification words: the
  tail of the code's signature is empty, where the last \<open>N\<close> characters of the
  normalized content are the content itself.
\<close>

theorem signature_spec_counterexample:
  "signature ''user'' ''a'' = ''user|1|a|'' \<and> signature_spec 220 ''user'' ''a'' = ''user|1|a|a''
   \<and> signature ''user'' ''a'' \<noteq> signature_spec 220 ''user'' ''a''"
  by code_simp

section \<open>Signatures in the store\<close>

text \<open>
  The merge of the API cache with the page capture never yields two entries with the
  same signature.
\<close>

lemma pushAll_distinct:
  "distinct (sigsOf merged) \<Longrightarrow> set (sigsOf merged) \<subseteq> seen \<Longrightarrow>
     distinct (sigsOf (pushAll ms seen merged))"
proof (induction ms arbitrary: seen merged)
  case Nil
  then show ?case by simp
next
  case (Cons m ms)
  show ?case
  proof (cases "role m = [] \<or> content m = [] \<or> signature (role m) (content m) \<in> seen")
    case True
    with Cons show ?thesis by (auto simp: Let_def)
  next
    case False
    let ?sig = "signature (role m) (content m)"
    have d: "distinct (sigsOf (merged @ [m]))"
      using Cons.prems False by (auto simp: sigsOf_def)
    have s: "set (sigsOf (merged @ [m])) \<subseteq> insert ?sig seen"
      using Cons.prems by (auto simp: sigsOf_def)
    from Cons.IH [OF d s] False show ?thesis by (simp add: Let_def)
  qed
qed

lemma sigsOf_renumber: "sigsOf (renumber sid idx ms) = sigsOf ms"
  by (induction ms arbitrary: idx) (simp_all add: sigsOf_def)

lemma mergeApiDom_distinct: "distinct (sigsOf (mergeApiDom sid apiMsgs domMsgs))"
proof -
  have "distinct (sigsOf (pushAll (apiMsgs @ domMsgs) {} []))"
    by (rule pushAll_distinct) (simp_all add: sigsOf_def)
  then show ?thesis by (simp add: mergeApiDom_def sigsOf_renumber)
qed

text \<open>
  C3. No two stored messages share a signature after append scans and merges. The append
  scan breaks this: a first scan stores three messages with distinct signatures, the last
  one a user message \<open>ok\<close>; a second scan whose first node is the user message
  \<open>ok thanks\<close>, already stored, is taken for a streaming continuation of that last
  message, which becomes a second \<open>ok thanks\<close>.
\<close>

theorem append_scan_duplicate_signature:
  "distinct (sigsOf (scanAndSyncMessages exEnv True exParsed1 []))
   \<and> \<not> distinct (sigsOf (scanAndSyncMessages exEnv True exParsed2
                           (scanAndSyncMessages exEnv True exParsed1 [])))
   \<and> map content (scanAndSyncMessages exEnv True exParsed2
                           (scanAndSyncMessages exEnv True exParsed1 []))
       = [''ok thanks'', ''done'', ''ok thanks'']"
  by code_simp

section \<open>The number of insights\<close>

lemma sentenceLoop_bound:
  "length insights \<le> 10 \<Longrightarrow>
     (case sentenceLoop ss insights of
        (True, r) \<Rightarrow> length r \<le> 11
      | (False, r) \<Rightarrow> length r \<le> 10)"
proof (induction ss arbitrary: insights)
  case Nil
  then show ?case by simp
next
  case (Cons s ss)
  have step: "\<And>ins. length ins \<le> 10 \<Longrightarrow>
      (case sentenceLoop ss ins of (True, r) \<Rightarrow> length r \<le> 11 | (False, r) \<Rightarrow> length r \<le> 10)"
    by (rule Cons.IH)
  show ?case
    using Cons.prems
    by (auto simp: Let_def intro!: step)
qed

lemma messageLoop_bound:
  "length insights \<le> 10 \<Longrightarrow> length (messageLoop ms insights) \<le> 11"
proof (induction ms arbitrary: insights)
  case Nil
  then show ?case by simp
next
  case (Cons m ms)
  from sentenceLoop_bound [OF Cons.prems,
      of "splitSentences [] False (normalizeForExtraction (content m))"]
  show ?case
    using Cons.IH Cons.prems
    by (auto simp: Let_def split: prod.splits bool.splits)
qed

lemma extractInsights_at_most_11: "length (extractInsights msgs) \<le> 11"
  by (simp add: extractInsights_def messageLoop_bound)

text \<open>
  C9. \<open>extractInsights\<close> returns at most 10 insights. The code returns 11 for nine
  marker sentences, one goal statement and one more marker sentence: the goal statement
  is pushed as the tenth insight without leaving the loop, and the next marker sentence
  is pushed before the length is tested.
\<close>

theorem extractInsights_eleven:
  "extractInsights exNotes =
     replicate 9 ''Note: a'' @ [''We need to b'', ''Note: c'']
   \<and> length (extractInsights exNotes) = 11"
  by code_simp

section \<open>The path through the conversation graph\<close>

lemma walkUp_unfold:
  "walkUp mp n cur =
     (if n = 0 then []
      else case lookupNode mp cur of
             None \<Rightarrow> []
           | Some nd \<Rightarrow> if cur = [] then [] else cur # walkUp mp (n - 1) (parent nd))"
  by (cases n) (simp_all split: option.splits)

lemma walkUp_invalid:
  "cur = [] \<or> lookupNode mp cur = None \<Longrightarrow> walkUp mp n cur = []"
  by (cases n) (auto split: option.splits)

lemma distinctPrefix_subset: "set (distinctPrefix seen xs) \<subseteq> set xs"
  by (induction xs arbitrary: seen) auto

lemma distinctPrefix_distinct:
  "distinct xs \<Longrightarrow> set xs \<inter> seen = {} \<Longrightarrow> distinctPrefix seen xs = xs"
  by (induction xs arbitrary: seen) auto

lemma chainLoop_walk:
  "length chainIds \<le> 100000 \<Longrightarrow>
     chainLoop mp cur guard chainIds =
       chainIds @ distinctPrefix guard (walkUp mp (100000 - length chainIds) cur)"
proof (induction mp cur guard chainIds rule: chainLoop.induct)
  case (1 mp cur guard chainIds)
  show ?case
  proof (cases "cur \<noteq> [] \<and> lookupNode mp cur \<noteq> None \<and> cur \<notin> guard \<and> length chainIds < 100000")
    case True
    then obtain nd where nd: "lookupNode mp cur = Some nd" by auto
    from True obtain k where k: "100000 - length chainIds = Suc k"
      by (cases "100000 - length chainIds") auto
    then have k': "100000 - length (chainIds @ [cur]) = k" by simp
    have "chainLoop mp cur guard chainIds =
            chainLoop mp (parent nd) (insert cur guard) (chainIds @ [cur])"
      using True nd by (subst chainLoop.simps) simp
    also have "\<dots> = (chainIds @ [cur]) @ distinctPrefix (insert cur guard) (walkUp mp k (parent nd))"
      using "1.IH" [OF True] True nd k' by simp
    also have "\<dots> = chainIds @ distinctPrefix guard (walkUp mp (Suc k) cur)"
      using True nd by simp
    finally show ?thesis by (simp add: k)
  next
    case False
    have c: "chainLoop mp cur guard chainIds = chainIds"
      using False by (subst chainLoop.simps) auto
    have "distinctPrefix guard (walkUp mp (100000 - length chainIds) cur) = []"
    proof (cases "100000 - length chainIds")
      case 0
      then show ?thesis by simp
    next
      case (Suc k)
      then have "length chainIds < 100000" by simp
      with False have "cur = [] \<or> lookupNode mp cur = None \<or> cur \<in> guard" by blast
      then show ?thesis
        by (auto simp: Suc split: option.splits)
    qed
    with c show ?thesis by simp
  qed
qed

lemma chainIdsOf_walk:
  "chainIdsOf json = rev (distinctPrefix {} (walkUp (mapping json) 100000 (current_node json)))"
proof (cases "current_node json \<noteq> [] \<and> lookupNode (mapping json) (current_node json) \<noteq> None")
  case True
  then show ?thesis
    using chainLoop_walk [of "[]" "mapping json" "current_node json" "{}"]
    by (simp add: chainIdsOf_def)
next
  case False
  then have "walkUp (mapping json) 100000 (current_node json) = []"
    by (intro walkUp_invalid) blast
  with False show ?thesis by (auto simp: chainIdsOf_def)
qed

lemma chainIdsOf_nonempty:
  "current_node json \<noteq> [] \<Longrightarrow> lookupNode (mapping json) (current_node json) \<noteq> None \<Longrightarrow>
     chainIdsOf json \<noteq> []"
  unfolding chainIdsOf_walk
  by (subst walkUp_unfold) (auto split: option.splits)

text \<open>
  The interceptor follows the parent chain. When \<open>current_node\<close> names a node of the
  mapping, it extracts the messages of the nodes met by walking parent links from
  \<open>current_node\<close> (for at most 100,000 nodes, and stopping before a node met twice), root
  first; every node used lies on that walk, and when the walk meets no node twice the
  result is the list of messages on the path from the root to \<open>current_node\<close>. When
  \<open>current_node\<close> is missing or names nothing, it falls back to all nodes in key order.
\<close>

lemma extract_follows_parent_chain:
  "(current_node json \<noteq> [] \<and> lookupNode (mapping json) (current_node json) \<noteq> None \<longrightarrow>
      extractChatGPTConversationMessages json =
        messagesOfIds (mapping json)
          (rev (distinctPrefix {} (walkUp (mapping json) 100000 (current_node json))))
      \<and> set (distinctPrefix {} (walkUp (mapping json) 100000 (current_node json)))
           \<subseteq> set (walkUp (mapping json) 100000 (current_node json))
      \<and> (distinct (walkUp (mapping json) 100000 (current_node json)) \<longrightarrow>
           extractChatGPTConversationMessages json = pathMessages json))
   \<and> (current_node json = [] \<or> lookupNode (mapping json) (current_node json) = None \<longrightarrow>
        extractChatGPTConversationMessages json =
          messagesOfIds (mapping json) (map fst (mapping json)))"
proof -
  have a: "extractChatGPTConversationMessages json =
        messagesOfIds (mapping json)
          (rev (distinctPrefix {} (walkUp (mapping json) 100000 (current_node json))))"
    if "current_node json \<noteq> []" "lookupNode (mapping json) (current_node json) \<noteq> None"
    using chainIdsOf_nonempty [OF that]
    by (simp add: extractChatGPTConversationMessages_def Let_def chainIdsOf_walk)
  have b: "extractChatGPTConversationMessages json = pathMessages json"
    if "current_node json \<noteq> []" "lookupNode (mapping json) (current_node json) \<noteq> None"
      "distinct (walkUp (mapping json) 100000 (current_node json))"
    using a [OF that(1,2)] distinctPrefix_distinct [OF that(3), of "{}"]
    by (simp add: pathMessages_def)
  have c: "extractChatGPTConversationMessages json =
          messagesOfIds (mapping json) (map fst (mapping json))"
    if "current_node json = [] \<or> lookupNode (mapping json) (current_node json) = None"
    using that by (auto simp: extractChatGPTConversationMessages_def Let_def chainIdsOf_def)
  show ?thesis
    using a b c distinctPrefix_subset [of "{}" "walkUp (mapping json) 100000 (current_node json)"]
    by blast
qed

lemma ex_lookup:
  "lookupNode exMapping ''a'' = Some \<lparr>parent = [], n_message = Some (exMsg ''user'' ''question'')\<rparr>"
  "lookupNode exMapping ''c'' = Some \<lparr>parent = ''a'', n_message = Some (exMsg ''assistant'' ''second answer'')\<rparr>"
  "lookupNode exMapping ''b'' = Some \<lparr>parent = ''a'', n_message = Some (exMsg ''assistant'' ''first answer'')\<rparr>"
  "lookupNode exMapping ''zz'' = None"
  "lookupNode exMapping [] = None"
  "lookupNode exMapping ''constructor'' = Some \<lparr>parent = [], n_message = None\<rparr>"
  by (simp_all add: lookupNode_def exMapping_def inheritedKeys_def)

lemma ex_walk: "walkUp exMapping 100000 ''c'' = [''c'', ''a'']"
proof -
  have 1: "walkUp exMapping 100000 ''c'' = ''c'' # walkUp exMapping 99999 ''a''"
    by (subst walkUp_unfold) (simp add: ex_lookup)
  have 2: "walkUp exMapping 99999 ''a'' = ''a'' # walkUp exMapping 99998 []"
    by (subst walkUp_unfold) (simp add: ex_lookup)
  have 3: "walkUp exMapping 99998 [] = []"
    by (simp add: walkUp_invalid)
  show ?thesis by (simp only: 1 2 3)
qed

lemma ex_walk_inherited: "walkUp exMapping 100000 ''constructor'' = [''constructor'']"
proof -
  have 1: "walkUp exMapping 100000 ''constructor'' = ''constructor'' # walkUp exMapping 99999 []"
    by (subst walkUp_unfold) (simp add: ex_lookup)
  have 2: "walkUp exMapping 99999 [] = []"
    by (simp add: walkUp_invalid)
  show ?thesis by (simp only: 1 2)
qed

lemma ex_nodeMessage:
  "nodeMessage exMapping ''a'' = Some (exX ''user'' ''question'')"
  "nodeMessage exMapping ''b'' = Some (exX ''assistant'' ''first answer'')"
  "nodeMessage exMapping ''c'' = Some (exX ''assistant'' ''second answer'')"
  "nodeMessage exMapping ''constructor'' = None"
  by (simp_all add: nodeMessage_def ex_lookup exMsg_def exX_def normalizePartText_def trim_def
       isSpace_def MAX_CHATGPT_MSG_CHARS_def)

lemma ex_pathMessages:
  "pathMessages \<lparr>mapping = exMapping, current_node = ''c''\<rparr>
     = [exX ''user'' ''question'', exX ''assistant'' ''second answer'']"
  by (simp add: pathMessages_def ex_walk messagesOfIds_def ex_nodeMessage)

lemma ex_chain: "chainIdsOf \<lparr>mapping = exMapping, current_node = ''c''\<rparr> = [''a'', ''c'']"
  by (simp add: chainIdsOf_walk ex_walk)

lemma extract_path_example:
  "extractChatGPTConversationMessages \<lparr>mapping = exMapping, current_node = ''c''\<rparr>
     = [exX ''user'' ''question'', exX ''assistant'' ''second answer'']"
  by (simp add: extractChatGPTConversationMessages_def ex_chain messagesOfIds_def ex_nodeMessage)

text \<open>
  For a payload whose \<open>current_node\<close> names nothing the path is empty, and the
  interceptor returns the messages of both branches. For a \<open>current_node\<close> that is the
  name of an inherited member, such as \<open>constructor\<close>, the chain holds that name alone
  and nothing is returned.
\<close>

lemma extract_dangling_current_node:
  "extractChatGPTConversationMessages \<lparr>mapping = exMapping, current_node = ''zz''\<rparr>
     = [exX ''user'' ''question'', exX ''assistant'' ''first answer'',
        exX ''assistant'' ''second answer'']
   \<and> pathMessages \<lparr>mapping = exMapping, current_node = ''zz''\<rparr> = []"
proof -
  have m: "map fst exMapping = [''a'', ''b'', ''c'']" by (simp add: exMapping_def)
  have e: "extractChatGPTConversationMessages \<lparr>mapping = exMapping, current_node = ''zz''\<rparr>
     = [exX ''user'' ''question'', exX ''assistant'' ''first answer'',
        exX ''assistant'' ''second answer'']"
    by (simp add: extractChatGPTConversationMessages_def chainIdsOf_def ex_lookup m
        messagesOfIds_def ex_nodeMessage)
  have p: "pathMessages \<lparr>mapping = exMapping, current_node = ''zz''\<rparr> = []"
    by (simp add: pathMessages_def walkUp_invalid ex_lookup messagesOfIds_def)
  from e p show ?thesis by simp
qed

lemma extract_inherited_current_node:
  "extractChatGPTConversationMessages \<lparr>mapping = exMapping, current_node = ''constructor''\<rparr> = []"
  by (simp add: extractChatGPTConversationMessages_def chainIdsOf_walk ex_walk_inherited
      messagesOfIds_def ex_nodeMessage)

text \<open>
  \<open>extractMessagesFromAnyJson\<close> runs the same walk and then its recursive walk over the
  whole payload. Whenever it returns, the signature of every message wrapped by a node of
  the mapping is among the signatures returned, whether the node lies on the path or not.
\<close>

lemma pushUnseen_inv:
  "seen = sigsOfX out \<Longrightarrow>
     fst (pushUnseen ms seen out) = sigsOfX (snd (pushUnseen ms seen out))
     \<and> sigsOfX out \<union> sigsOfX ms \<subseteq> sigsOfX (snd (pushUnseen ms seen out))"
proof (induction ms arbitrary: seen out)
  case Nil
  then show ?case by (simp add: sigsOfX_def)
next
  case (Cons m ms)
  show ?case
  proof (cases "signature (x_role m) (x_content m) \<in> seen")
    case True
    with Cons.IH [OF Cons.prems] Cons.prems show ?thesis
      by (auto simp: sigsOfX_def)
  next
    case False
    have "insert (signature (x_role m) (x_content m)) seen = sigsOfX (out @ [m])"
      using Cons.prems by (auto simp: sigsOfX_def)
    from Cons.IH [OF this] False show ?thesis
      by (auto simp: sigsOfX_def)
  qed
qed

lemma collectIds_mem:
  "collectIds f ks = Inr rs \<Longrightarrow> k \<in> set ks \<Longrightarrow> f k = Inr (Some m) \<Longrightarrow> m \<in> set rs"
  by (induction ks arbitrary: rs) (auto split: sum.splits option.splits)

lemma anyJson_keeps_every_node:
  assumes "extractMessagesFromAnyJson json = Inr out"
    and "k \<in> set (map fst (mapping json))"
    and "visitNodeMessage (mapping json) k = Inr (Some m)"
  shows "signature (x_role m) (x_content m) \<in> sigsOfX out"
proof -
  define chainIds where "chainIds = chainIdsOf json"
  define idsToUse where "idsToUse = (if chainIds \<noteq> [] then chainIds else map fst (mapping json))"
  define p where "p = (case collectIds (pathNodeMessage (mapping json)) idsToUse of
                                    Inl _ \<Rightarrow> ({}, [])
                                  | Inr xs \<Rightarrow> pushUnseen xs {} [])"
  define visited where "visited = (case map_of (mapping json) ''message'' of Some (Some _) \<Rightarrow> [''message''] | _ \<Rightarrow> [])
                           @ map fst (mapping json)"
  have e: "extractMessagesFromAnyJson json =
     (case collectIds (visitNodeMessage (mapping json)) visited of
                  Inl e \<Rightarrow> Inl e
                | Inr ys \<Rightarrow> Inr (snd (pushUnseen ys (fst p) (snd p))))"
    unfolding extractMessagesFromAnyJson_def Let_def chainIds_def idsToUse_def p_def
      visited_def split_beta by (rule refl)
  have inv: "fst p = sigsOfX (snd p)"
  proof (cases "collectIds (pathNodeMessage (mapping json)) idsToUse")
    case (Inl a)
    then show ?thesis by (simp add: p_def sigsOfX_def)
  next
    case (Inr xs)
    have "{} = sigsOfX []" by (simp add: sigsOfX_def)
    from pushUnseen_inv [OF this, of xs] Inr show ?thesis by (simp add: p_def)
  qed
  from assms(1) e obtain ys where ys: "collectIds (visitNodeMessage (mapping json)) visited = Inr ys"
    and out: "out = snd (pushUnseen ys (fst p) (snd p))"
    by (auto split: sum.splits)
  have "k \<in> set visited" using assms(2) by (simp add: visited_def)
  from collectIds_mem [OF ys this assms(3)] have "m \<in> set ys" .
  then have "signature (x_role m) (x_content m) \<in> sigsOfX ys" by (auto simp: sigsOfX_def)
  with pushUnseen_inv [OF inv, of ys] out show ?thesis by auto
qed

lemma ex_isoTime: "isoTime (Some 1700000000) = Inr (Some 1700000000)"
  by (simp add: isoTime_def)

lemma ex_pathNode:
  "pathNodeMessage exMapping ''a'' = Inr (Some (exX ''user'' ''question''))"
  "pathNodeMessage exMapping ''c'' = Inr (Some (exX ''assistant'' ''second answer''))"
  "visitNodeMessage exMapping ''a'' = Inr (Some (exX ''user'' ''question''))"
  "visitNodeMessage exMapping ''b'' = Inr (Some (exX ''assistant'' ''first answer''))"
  "visitNodeMessage exMapping ''c'' = Inr (Some (exX ''assistant'' ''second answer''))"
proof -
  have r: "normalizeRole ''user'' = ''user''" "normalizeRole ''assistant'' = ''assistant''"
    by code_simp+
  show "pathNodeMessage exMapping ''a'' = Inr (Some (exX ''user'' ''question''))"
    "pathNodeMessage exMapping ''c'' = Inr (Some (exX ''assistant'' ''second answer''))"
    "visitNodeMessage exMapping ''a'' = Inr (Some (exX ''user'' ''question''))"
    "visitNodeMessage exMapping ''b'' = Inr (Some (exX ''assistant'' ''first answer''))"
    "visitNodeMessage exMapping ''c'' = Inr (Some (exX ''assistant'' ''second answer''))"
    by (simp_all add: pathNodeMessage_def visitNodeMessage_def ex_lookup exMsg_def exX_def r
         normalizeContent_def normalizePartText_def trim_def isSpace_def ex_isoTime)
qed

lemma ex_sigs:
  "signature ''user'' ''question'' = ''user|8|question|''"
  "signature ''assistant'' ''first answer'' = ''assistant|12|first answer|''"
  "signature ''assistant'' ''second answer'' = ''assistant|13|second answer|''"
  by code_simp+

text \<open>
  C1. On a conversation graph the messages extracted are those on the path from the root
  to \<open>current_node\<close>, in that order, and messages of abandoned branches are left out.
  The interceptor does so. \<open>extractMessagesFromAnyJson\<close> does not: on the graph with
  the question \<open>a\<close>, a first answer \<open>b\<close> and a second answer \<open>c\<close>, both children of
  \<open>a\<close>, and \<open>current_node = c\<close>, the path holds the question and the second answer,
  the interceptor returns exactly these, and \<open>extractMessagesFromAnyJson\<close> returns
  them followed by the first answer, the message of the abandoned branch.
\<close>

theorem anyJson_adds_abandoned_branch:
  "extractMessagesFromAnyJson \<lparr>mapping = exMapping, current_node = ''c''\<rparr>
     = Inr [exX ''user'' ''question'', exX ''assistant'' ''second answer'',
            exX ''assistant'' ''first answer'']
   \<and> pathMessages \<lparr>mapping = exMapping, current_node = ''c''\<rparr>
       = [exX ''user'' ''question'', exX ''assistant'' ''second answer'']
   \<and> extractChatGPTConversationMessages \<lparr>mapping = exMapping, current_node = ''c''\<rparr>
       = pathMessages \<lparr>mapping = exMapping, current_node = ''c''\<rparr>"
proof -
  have m: "map fst exMapping = [''a'', ''b'', ''c'']" by (simp add: exMapping_def)
  have v: "map_of exMapping ''message'' = None" by (simp add: exMapping_def)
  have a: "extractMessagesFromAnyJson \<lparr>mapping = exMapping, current_node = ''c''\<rparr>
     = Inr [exX ''user'' ''question'', exX ''assistant'' ''second answer'',
            exX ''assistant'' ''first answer'']"
    by (simp add: extractMessagesFromAnyJson_def ex_chain m v ex_pathNode
        exX_def ex_sigs Let_def)
  from a ex_pathMessages extract_path_example show ?thesis by simp
qed

end
